theory Spec2Isabelle
  imports Main "HOL-Library.Multiset" "HOL-Library.AList"
begin

chapter \<open>The task mailbox protocol of run-remote-task\<close>

text \<open>
  A shallow embedding of \<^verbatim>\<open>src/index.js\<close> (the version with the \<^verbatim>\<open>server\<close>, \<^verbatim>\<open>aws\<close> and
  \<^verbatim>\<open>gcp\<close> backends and the client timeout): the decoding and encoding of object names,
  the sweep of expired objects, the assembly of tasks from a listing, one run of a task
  by the server, and the client's poll loop and cleanup.

  What the program takes from its environment is a parameter of the functions below:
  the signature scheme, the external command, every reading of the clock, the set of
  names whose deletion the store rejects and, for the client, what each poll finds in
  the store. Console output is left out, except where producing it can throw.

  The code keeps its groups of files and its retry counters in plain objects, which
  inherit from \<^verbatim>\<open>Object.prototype\<close>; a task id is a property name there and can be the
  name of an inherited property. The properties \<^verbatim>\<open>in\<close> and \<^verbatim>\<open>out\<close> of \<^verbatim>\<open>Object.prototype\<close>,
  which such an id can create, are part of the state of a process.
\<close>

section \<open>Data model\<close>

text \<open>
  The store holds named blobs. \<^verbatim>\<open>convertUrls\<close> in \<^verbatim>\<open>src/index.js\<close> turns a name into the
  object \<^verbatim>\<open>{ date, taskId, inout, ext, url }\<close>. The fields \<^verbatim>\<open>inout\<close> and \<^verbatim>\<open>ext\<close> only ever
  hold the strings that the regular expression admits, so they are datatypes here.

  A JavaScript \<^verbatim>\<open>Date\<close> holds either an integral time value of magnitude at most
  8.64e15 milliseconds or NaN (an Invalid Date); \<^verbatim>\<open>new Date(+digits)\<close> gives the
  latter when the number is above that bound.
\<close>

datatype direction = In | Out

datatype kind = Dat | Sig | Err

datatype jsdate = Date int | InvalidDate

type_synonym bytes = string

record taskfile =
  date :: jsdate
  taskId :: string
  inout :: direction
  ext :: kind
  url :: string

definition maxTime :: int where
  "maxTime = 8640000000000000"

definition newDate :: "nat \<Rightarrow> jsdate" where
  "newDate n = (if int n \<le> maxTime then Date (int n) else InvalidDate)"

section \<open>Object naming codec\<close>

definition digit_chars :: string where
  "digit_chars = ''0123456789''"

definition is_digit :: "char \<Rightarrow> bool" where
  "is_digit c = (c \<in> set digit_chars)"

definition is_word :: "char \<Rightarrow> bool" where
  "is_word c = (c \<in> set (digit_chars @
     ''abcdefghijklmnopqrstuvwxyzABCDEFGHIJKLMNOPQRSTUVWXYZ_''))"

text \<open>The value of a digit is its position in \<^verbatim>\<open>0123456789\<close>.\<close>

definition digit_val :: "char \<Rightarrow> nat" where
  "digit_val c = length (takeWhile (\<lambda>d. d \<noteq> c) digit_chars)"

definition digit_char :: "nat \<Rightarrow> char" where
  "digit_char d = digit_chars ! d"

text \<open>\<^verbatim>\<open>+date\<close> on a string of decimal digits.\<close>

definition number_of_digits :: "string \<Rightarrow> nat" where
  "number_of_digits s = foldl (\<lambda>a c. 10 * a + digit_val c) 0 s"

text \<open>The template literal \<^verbatim>\<open>${time}\<close> on a non-negative integral number below 1e21.\<close>

fun show_nat :: "nat \<Rightarrow> string" where
  "show_nat n = (if n < 10 then [digit_char n]
                 else show_nat (n div 10) @ [digit_char (n mod 10)])"

declare show_nat.simps [simp del]

definition show_time :: "jsdate \<Rightarrow> string" where
  "show_time d = (case d of
       InvalidDate \<Rightarrow> ''NaN''
     | Date t \<Rightarrow> (if t < 0 then CHR ''-'' # show_nat (nat (- t)) else show_nat (nat t)))"

definition inout_str :: "direction \<Rightarrow> string" where
  "inout_str d = (case d of In \<Rightarrow> ''in'' | Out \<Rightarrow> ''out'')"

definition ext_str :: "kind \<Rightarrow> string" where
  "ext_str k = (case k of Dat \<Rightarrow> ''dat'' | Sig \<Rightarrow> ''sig'' | Err \<Rightarrow> ''err'')"

text \<open>\<^verbatim>\<open>getTaskFileUrl(time, taskId, inout, ext)\<close>:
  \<^verbatim>\<open>`${time.getTime()}-${taskId}.${inout}.${ext}`\<close>.\<close>

definition getTaskFileUrl :: "jsdate \<Rightarrow> string \<Rightarrow> direction \<Rightarrow> kind \<Rightarrow> string" where
  "getTaskFileUrl time tid io e =
     show_time time @ ''-'' @ tid @ ''.'' @ inout_str io @ ''.'' @ ext_str e"

text \<open>
  The tail \<^verbatim>\<open>\.(in|out)\.(dat|sig|err)$\<close> of the pattern: the rest of the name has to be
  one of six strings.
\<close>

definition match_suffix :: "string \<Rightarrow> (direction \<times> kind) option" where
  "match_suffix s =
     (if s = ''.in.dat'' then Some (In, Dat)
      else if s = ''.in.sig'' then Some (In, Sig)
      else if s = ''.in.err'' then Some (In, Err)
      else if s = ''.out.dat'' then Some (Out, Dat)
      else if s = ''.out.sig'' then Some (Out, Sig)
      else if s = ''.out.err'' then Some (Out, Err)
      else None)"

text \<open>
  One element of \<^verbatim>\<open>convertUrls\<close>:
  \<^verbatim>\<open>url.match(/^(\d+)-(\w+)\.(in|out)\.(dat|sig|err)$/)\<close>. Neither \<^verbatim>\<open>\d\<close> nor \<^verbatim>\<open>\w\<close>
  matches the delimiter that follows its group, so the greedy groups are the longest
  prefixes of digits and of word characters and backtracking cannot find another split.
\<close>

definition convertUrl :: "string \<Rightarrow> taskfile option" where
  "convertUrl u =
     (let ds = takeWhile is_digit u; r1 = dropWhile is_digit u in
      if ds = [] then None
      else case r1 of
        [] \<Rightarrow> None
      | c # r2 \<Rightarrow>
          if c \<noteq> CHR ''-'' then None
          else let tid = takeWhile is_word r2; r3 = dropWhile is_word r2 in
            if tid = [] then None
            else case match_suffix r3 of
              None \<Rightarrow> None
            | Some (io, e) \<Rightarrow>
                Some \<lparr>date = newDate (number_of_digits ds), taskId = tid,
                      inout = io, ext = e, url = u\<rparr>)"

definition convertUrls :: "string list \<Rightarrow> taskfile list" where
  "convertUrls urls = List.map_filter convertUrl urls"

text \<open>
  The grammar as the specification words it:
  \<^verbatim>\<open>name = <decimal-epoch-millis> "-" <taskId> "." <direction> "." <kind>\<close>, the task id
  being a token of word characters.
\<close>

definition matches_grammar :: "string \<Rightarrow> bool" where
  "matches_grammar name = (\<exists>ds tid io e.
      ds \<noteq> [] \<and> list_all is_digit ds \<and> tid \<noteq> [] \<and> list_all is_word tid \<and>
      name = ds @ ''-'' @ tid @ ''.'' @ inout_str io @ ''.'' @ ext_str e)"

section \<open>The store\<close>

text \<open>
  The store is the list of its named objects, in the order a listing returns them.
  \<^verbatim>\<open>deleteFile\<close> is a promise that the backend may reject; the names whose
  deletion the backend rejects are a parameter of the model.
\<close>

type_synonym store = "(string \<times> bytes) list"

definition deleteFile :: "string set \<Rightarrow> store \<Rightarrow> string \<Rightarrow> store option" where
  "deleteFile rejected st u = (if u \<in> rejected then None else Some (AList.delete u st))"

section \<open>Garbage collector\<close>

text \<open>\<^verbatim>\<open>file.date < expirationDate\<close>: a comparison with NaN is false.\<close>

definition date_before :: "jsdate \<Rightarrow> int \<Rightarrow> bool" where
  "date_before d x = (case d of InvalidDate \<Rightarrow> False | Date t \<Rightarrow> t < x)"

text \<open>
  The loop of \<^verbatim>\<open>deleteExpiredFiles\<close>, with \<^verbatim>\<open>res\<close> as accumulator. A rejected delete
  is caught and logged inside the loop; \<^verbatim>\<open>res.push(file)\<close> is in the \<^verbatim>\<open>else\<close> branch
  only.
\<close>

fun sweep_loop ::
  "string set \<Rightarrow> int \<Rightarrow> taskfile list \<Rightarrow> taskfile list \<Rightarrow> store \<Rightarrow> taskfile list \<times> store" where
  "sweep_loop rejected expirationDate [] res st = (res, st)"
| "sweep_loop rejected expirationDate (f # fs) res st =
     (if date_before (date f) expirationDate
      then (case deleteFile rejected st (url f) of
              None \<Rightarrow> sweep_loop rejected expirationDate fs res st
            | Some st' \<Rightarrow> sweep_loop rejected expirationDate fs res st')
      else sweep_loop rejected expirationDate fs (res @ [f]) st)"

text \<open>\<^verbatim>\<open>now\<close> is the value of \<^verbatim>\<open>Date.now()\<close>, read once before the loop.\<close>

definition deleteExpiredFiles ::
  "string set \<Rightarrow> int \<Rightarrow> int \<Rightarrow> store \<Rightarrow> taskfile list \<Rightarrow> taskfile list \<times> store" where
  "deleteExpiredFiles rejected now taskExpirationMillis st files =
     sweep_loop rejected (now - taskExpirationMillis * 2) files [] st"

text \<open>The policy as the specification words it:
  an object is expired when \<open>now - createdAt > 2 \<times> expirationMillis\<close>.\<close>

definition expired :: "int \<Rightarrow> int \<Rightarrow> taskfile \<Rightarrow> bool" where
  "expired now expirationMillis f =
     (case date f of InvalidDate \<Rightarrow> False | Date t \<Rightarrow> now - t > 2 * expirationMillis)"

section \<open>Task assembler\<close>

text \<open>
  \<^verbatim>\<open>toTasks\<close> builds \<^verbatim>\<open>tasks[file.taskId][file.inout][file.ext] = file\<close> in plain
  objects. A plain object is the list of its own properties in creation order: assigning
  to an existing key replaces the value in place, assigning to a new key appends
  (\<^const>\<open>AList.update\<close>).
\<close>

type_synonym slots = "(kind \<times> taskfile) list"

type_synonym group = "(direction \<times> slots) list"

type_synonym tasks_obj = "(string \<times> group) list"

text \<open>
  Every plain object inherits from \<^verbatim>\<open>Object.prototype\<close>, so a read such as
  \<^verbatim>\<open>tasks[file.taskId]\<close> that finds no own property finds the inherited one. In a fresh
  Node process the inherited names are the ones below; all are word-character tokens
  and all inherited values are truthy. Eleven of them are functions; \<^verbatim>\<open>__proto__\<close> reads
  as \<^verbatim>\<open>Object.prototype\<close> itself.

  The loop of \<^verbatim>\<open>toTasks\<close> can therefore write outside \<^verbatim>\<open>tasks\<close>, into objects that
  outlive the call. What it can change is recorded here: the objects
  \<^verbatim>\<open>Object.prototype.in\<close> and \<^verbatim>\<open>Object.prototype.out\<close>, absent in a fresh process, which
  every object of the process inherits once they exist; and which of the inherited
  functions have got an own property \<^verbatim>\<open>in\<close> or \<^verbatim>\<open>out\<close> (what is stored there is never
  read back through \<^verbatim>\<open>tasks\<close>).
\<close>

definition object_prototype_names :: "string list" where
  "object_prototype_names =
     [''constructor'', ''__defineGetter__'', ''__defineSetter__'', ''hasOwnProperty'',
      ''__lookupGetter__'', ''__lookupSetter__'', ''isPrototypeOf'',
      ''propertyIsEnumerable'', ''toString'', ''valueOf'', ''__proto__'',
      ''toLocaleString'']"

record prototype =
  proto_in :: "slots option"
  proto_out :: "slots option"
  fn_own :: "(string \<times> direction) list"

definition fresh_prototype :: prototype where
  "fresh_prototype = \<lparr>proto_in = None, proto_out = None, fn_own = []\<rparr>"

text \<open>\<^verbatim>\<open>Object.prototype[d]\<close> for \<open>d\<close> one of \<^verbatim>\<open>in\<close>, \<^verbatim>\<open>out\<close>, and the assignment to it.\<close>

definition inherited :: "prototype \<Rightarrow> direction \<Rightarrow> slots option" where
  "inherited P d = (case d of In \<Rightarrow> proto_in P | Out \<Rightarrow> proto_out P)"

definition set_inherited :: "prototype \<Rightarrow> direction \<Rightarrow> slots \<Rightarrow> prototype" where
  "set_inherited P d s = (case d of In \<Rightarrow> P\<lparr>proto_in := Some s\<rparr> | Out \<Rightarrow> P\<lparr>proto_out := Some s\<rparr>)"

text \<open>A read \<^verbatim>\<open>o[k]\<close> on an object without own property \<open>k\<close> finds an inherited value.\<close>

definition inherits :: "prototype \<Rightarrow> string \<Rightarrow> bool" where
  "inherits P k =
     (k \<in> set object_prototype_names \<or> (k = ''in'' \<and> proto_in P \<noteq> None) \<or>
      (k = ''out'' \<and> proto_out P \<noteq> None))"

text \<open>
  The body of the \<^verbatim>\<open>for (const file of files)\<close> loop, on \<^verbatim>\<open>tasks\<close> and the prototype
  state. \<open>tasks[k]\<close> is the own group if there is one. Otherwise it is
  \<^item> for \<^verbatim>\<open>__proto__\<close>: \<^verbatim>\<open>Object.prototype\<close>, so the file goes to
    \<^verbatim>\<open>Object.prototype[d][e]\<close>, the object \<^verbatim>\<open>Object.prototype[d]\<close> being created if absent;
  \<^item> for another inherited name: a function \<open>F\<close>; \<open>F[d]\<close> is its own property if it has
    one, else the inherited \<^verbatim>\<open>Object.prototype[d]\<close> if that exists (the file goes
    there), else \<open>F[d]\<close> is created;
  \<^item> for \<^verbatim>\<open>in\<close> or \<^verbatim>\<open>out\<close> when \<^verbatim>\<open>Object.prototype\<close> has that property: this object
    \<open>S\<close>; \<open>S[d]\<close> is the inherited \<^verbatim>\<open>Object.prototype[d]\<close> if that exists (the file goes
    there); if not, the code nests a new object inside \<open>S\<close>, which this model does not
    represent: the result is \<open>None\<close>;
  \<^item> otherwise undefined, and a new empty group is created.
  In a group, \<open>g[d]\<close> is the own property if there is one, else the inherited
  \<^verbatim>\<open>Object.prototype[d]\<close> if that exists (the file goes there), else it is created.
\<close>

definition add_to_group ::
  "tasks_obj \<times> prototype \<Rightarrow> string \<Rightarrow> group \<Rightarrow> taskfile \<Rightarrow> tasks_obj \<times> prototype" where
  "add_to_group tp k g f =
     (case tp of (tasks, P) \<Rightarrow>
        (case map_of g (inout f) of
           Some s \<Rightarrow>
             (AList.update k (AList.update (inout f) (AList.update (ext f) f s) g) tasks, P)
         | None \<Rightarrow>
             (case inherited P (inout f) of
                Some ps \<Rightarrow>
                  (AList.update k g tasks,
                   set_inherited P (inout f) (AList.update (ext f) f ps))
              | None \<Rightarrow>
                  (AList.update k (AList.update (inout f) [(ext f, f)] g) tasks, P))))"

definition add_file :: "tasks_obj \<times> prototype \<Rightarrow> taskfile \<Rightarrow> (tasks_obj \<times> prototype) option" where
  "add_file tp f =
     (case tp of (tasks, P) \<Rightarrow>
        (case map_of tasks (taskId f) of
           Some g \<Rightarrow> Some (add_to_group tp (taskId f) g f)
         | None \<Rightarrow>
             if taskId f = ''__proto__'' then
               (case inherited P (inout f) of
                  Some ps \<Rightarrow>
                    Some (tasks, set_inherited P (inout f) (AList.update (ext f) f ps))
                | None \<Rightarrow> Some (tasks, set_inherited P (inout f) [(ext f, f)]))
             else if taskId f \<in> set object_prototype_names then
               (if (taskId f, inout f) \<in> set (fn_own P) then Some (tasks, P)
                else case inherited P (inout f) of
                  Some ps \<Rightarrow>
                    Some (tasks, set_inherited P (inout f) (AList.update (ext f) f ps))
                | None \<Rightarrow> Some (tasks, P\<lparr>fn_own := fn_own P @ [(taskId f, inout f)]\<rparr>))
             else if inherits P (taskId f) then
               (case inherited P (inout f) of
                  Some ps \<Rightarrow>
                    Some (tasks, set_inherited P (inout f) (AList.update (ext f) f ps))
                | None \<Rightarrow> None)
             else Some (add_to_group tp (taskId f) [] f)))"

fun add_files ::
  "tasks_obj \<times> prototype \<Rightarrow> taskfile list \<Rightarrow> (tasks_obj \<times> prototype) option" where
  "add_files tp [] = Some tp"
| "add_files tp (f # fs) =
     (case add_file tp f of None \<Rightarrow> None | Some tp' \<Rightarrow> add_files tp' fs)"

text \<open>
  \<^verbatim>\<open>Object.values\<close> lists the own properties whose key is an array index (a canonical
  decimal numeral below \<open>2\<^sup>3\<^sup>2 - 1\<close>) first, in ascending numeric order, and then the
  other keys in creation order.
\<close>

definition is_array_index :: "string \<Rightarrow> bool" where
  "is_array_index k =
     (case k of
        [] \<Rightarrow> False
      | c # cs \<Rightarrow> list_all is_digit k \<and> (c \<noteq> CHR ''0'' \<or> cs = []) \<and>
                 int (number_of_digits k) < 4294967295)"

definition object_values :: "(string \<times> 'a) list \<Rightarrow> 'a list" where
  "object_values props =
     map snd (sort_key (\<lambda>p. number_of_digits (fst p))
                (filter (\<lambda>p. is_array_index (fst p)) props) @
              filter (\<lambda>p. \<not> is_array_index (fst p)) props)"

text \<open>
  A task as the callers of \<^verbatim>\<open>toTasks\<close> read it. \<open>task_in\<close> and \<open>task_out\<close> are what
  the reads \<^verbatim>\<open>task.in\<close> and \<^verbatim>\<open>task.out\<close> yield: the own property that the spread
  \<^verbatim>\<open>{ ...task, date, id }\<close> copied from the group or, failing that, the property
  inherited from \<^verbatim>\<open>Object.prototype\<close>. (The prototype does not change between a call of
  \<^verbatim>\<open>toTasks\<close> and the reads of its result.)
\<close>

record task =
  task_in :: "slots option"
  task_out :: "slots option"
  task_date :: jsdate
  task_id :: string

definition resolve :: "prototype \<Rightarrow> group \<Rightarrow> direction \<Rightarrow> slots option" where
  "resolve P g d = (case map_of g d of Some s \<Rightarrow> Some s | None \<Rightarrow> inherited P d)"

text \<open>
  \<^verbatim>\<open>.filter((task) => task.in && task.in.sig && task.in.dat)\<close> followed by
  \<^verbatim>\<open>.map((task) => ({ ...task, date: task.in.sig.date, id: task.in.sig.taskId }))\<close>:
  \<open>None\<close> for a group that the filter drops.
\<close>

definition assemble :: "prototype \<Rightarrow> group \<Rightarrow> task option" where
  "assemble P g =
     (case resolve P g In of
        None \<Rightarrow> None
      | Some s \<Rightarrow>
          (case map_of s Sig of
             None \<Rightarrow> None
           | Some sg \<Rightarrow>
               (case map_of s Dat of
                  None \<Rightarrow> None
                | Some _ \<Rightarrow>
                    Some \<lparr>task_in = Some s, task_out = resolve P g Out,
                          task_date = date sg, task_id = taskId sg\<rparr>)))"

text \<open>
  \<^verbatim>\<open>.sort((x, y) => x.date - y.date)\<close>. The difference of two dates is NaN when one of
  them is invalid, and the sort reads NaN as 0.
\<close>

definition date_diff :: "jsdate \<Rightarrow> jsdate \<Rightarrow> int option" where
  "date_diff x y =
     (case x of
        InvalidDate \<Rightarrow> None
      | Date a \<Rightarrow> (case y of InvalidDate \<Rightarrow> None | Date b \<Rightarrow> Some (a - b)))"

definition compare_tasks :: "task \<Rightarrow> task \<Rightarrow> int" where
  "compare_tasks x y =
     (case date_diff (task_date x) (task_date y) of None \<Rightarrow> 0 | Some d \<Rightarrow> d)"

definition task_time :: "task \<Rightarrow> int" where
  "task_time t = (case task_date t of InvalidDate \<Rightarrow> 0 | Date a \<Rightarrow> a)"

text \<open>
  V8 sorts an array of fewer than 64 elements in one piece: it takes the longest run
  at the start that is ascending or strictly descending (\<^verbatim>\<open>CountAndMakeRun\<close>), reverses
  it if descending, and inserts the remaining elements one by one at the place a
  binary search finds (\<^verbatim>\<open>BinaryInsertionSort\<close>).
\<close>

fun run_length :: "bool \<Rightarrow> task \<Rightarrow> task list \<Rightarrow> nat" where
  "run_length descending prev [] = 0"
| "run_length descending prev (x # xs) =
     (if (if descending then compare_tasks x prev \<ge> 0 else compare_tasks x prev < 0) then 0
      else Suc (run_length descending x xs))"

definition count_and_make_run :: "task list \<Rightarrow> task list \<times> task list" where
  "count_and_make_run xs =
     (case xs of
        x0 # x1 # rest \<Rightarrow>
          let descending = (compare_tasks x1 x0 < 0);
              n = 2 + run_length descending x1 rest
          in (if descending then rev (take n xs) else take n xs, drop n xs)
      | _ \<Rightarrow> (xs, []))"

function binary_search :: "task \<Rightarrow> task list \<Rightarrow> nat \<Rightarrow> nat \<Rightarrow> nat" where
  "binary_search pivot xs left right =
     (if left < right
      then let mid = left + (right - left) div 2
           in if compare_tasks pivot (xs ! mid) < 0 then binary_search pivot xs left mid
              else binary_search pivot xs (mid + 1) right
      else left)"
  by pat_completeness auto
termination
  by (relation "measure (\<lambda>(pivot, xs, left, right). right - left)") auto

declare binary_search.simps [simp del]

definition binary_insert :: "task list \<Rightarrow> task \<Rightarrow> task list" where
  "binary_insert xs pivot =
     (let i = binary_search pivot xs 0 (length xs) in take i xs @ pivot # drop i xs)"

definition v8_short_sort :: "task list \<Rightarrow> task list" where
  "v8_short_sort xs = (case count_and_make_run xs of (run, rest) \<Rightarrow> foldl binary_insert run rest)"

text \<open>
  The result of the sort. When every date is valid the comparator is consistent and the
  language fixes the result: the stable sorted order. When an Invalid Date makes
  the comparator inconsistent the order is what the implementation's algorithm yields:
  for fewer than 64 tasks the one above; for more, V8 merges several runs, which is
  not modelled (\<open>None\<close>).
\<close>

definition js_sort :: "task list \<Rightarrow> task list option" where
  "js_sort ts =
     (if list_all (\<lambda>t. task_date t \<noteq> InvalidDate) ts then Some (sort_key task_time ts)
      else if length ts < 64 then Some (v8_short_sort ts)
      else None)"

text \<open>\<^verbatim>\<open>toTasks(files)\<close> in a process whose prototype state is \<open>P\<close>: the tasks and
  the prototype state it leaves, or \<open>None\<close> where the model does not follow the code.\<close>

definition toTasks :: "prototype \<Rightarrow> taskfile list \<Rightarrow> (task list \<times> prototype) option" where
  "toTasks P files =
     (case add_files ([], P) files of
        None \<Rightarrow> None
      | Some (tasks, P') \<Rightarrow>
          (case js_sort (List.map_filter (assemble P') (object_values tasks)) of
             None \<Rightarrow> None
           | Some ts \<Rightarrow> Some (ts, P')))"

text \<open>The server's choice in \<^verbatim>\<open>startServer\<close>:
  \<^verbatim>\<open>toTasks(...).filter((task) => !task.out)\<close> and then \<^verbatim>\<open>tasks[0]\<close>.\<close>

definition pending :: "task list \<Rightarrow> task list" where
  "pending ts = filter (\<lambda>t. task_out t = None) ts"

definition next_task :: "prototype \<Rightarrow> taskfile list \<Rightarrow> (task option \<times> prototype) option" where
  "next_task P files =
     (case toTasks P files of
        None \<Rightarrow> None
      | Some (ts, P') \<Rightarrow> Some (case pending ts of [] \<Rightarrow> None | t # _ \<Rightarrow> Some t, P'))"

text \<open>The client's choice in \<^verbatim>\<open>runRemoteTask\<close>:
  \<^verbatim>\<open>.filter((task) => task.id === taskId && task.out && task.out.sig)[0]\<close>.\<close>

definition has_out_sig :: "task \<Rightarrow> bool" where
  "has_out_sig t = (case task_out t of None \<Rightarrow> False | Some s \<Rightarrow> map_of s Sig \<noteq> None)"

definition find_result ::
  "prototype \<Rightarrow> string \<Rightarrow> taskfile list \<Rightarrow> (task option \<times> prototype) option" where
  "find_result P tid files =
     (case toTasks P files of
        None \<Rightarrow> None
      | Some (ts, P') \<Rightarrow>
          Some (case filter (\<lambda>t. task_id t = tid \<and> has_out_sig t) ts of
                  [] \<Rightarrow> None
                | t # _ \<Rightarrow> Some t, P'))"

text \<open>The file that ends up in a slot: the last one listed for that task id, direction
  and kind.\<close>

definition slot :: "taskfile list \<Rightarrow> string \<Rightarrow> direction \<Rightarrow> kind \<Rightarrow> taskfile option" where
  "slot files k d e =
     (case rev (filter (\<lambda>f. taskId f = k \<and> inout f = d \<and> ext f = e) files) of
        [] \<Rightarrow> None
      | f # _ \<Rightarrow> Some f)"

text \<open>Notions used to state the properties of the assembler.\<close>

text \<open>
  A listing that makes no write to \<^verbatim>\<open>Object.prototype\<close>, and a process in which
  \<^verbatim>\<open>Object.prototype\<close> has neither \<^verbatim>\<open>in\<close> nor \<^verbatim>\<open>out\<close>.
\<close>

definition prototype_untouched :: "taskfile list \<Rightarrow> bool" where
  "prototype_untouched files = (\<forall>f \<in> set files. taskId f \<noteq> ''__proto__'')"

definition unpolluted :: "prototype \<Rightarrow> bool" where
  "unpolluted P = (proto_in P = None \<and> proto_out P = None)"

text \<open>What the loop body does to \<^verbatim>\<open>tasks\<close> in such a process for such a listing.\<close>

definition add_own :: "tasks_obj \<Rightarrow> taskfile \<Rightarrow> tasks_obj" where
  "add_own tasks f =
     (if taskId f \<in> set object_prototype_names then tasks
      else
        let g = (case map_of tasks (taskId f) of None \<Rightarrow> [] | Some g \<Rightarrow> g);
            s = (case map_of g (inout f) of None \<Rightarrow> [] | Some s \<Rightarrow> s)
        in AList.update (taskId f)
             (AList.update (inout f) (AList.update (ext f) f s) g) tasks)"

definition lookup3 :: "tasks_obj \<Rightarrow> string \<Rightarrow> direction \<Rightarrow> kind \<Rightarrow> taskfile option" where
  "lookup3 tasks k d e =
     (case map_of tasks k of
        None \<Rightarrow> None
      | Some g \<Rightarrow> (case map_of g d of None \<Rightarrow> None | Some s \<Rightarrow> map_of s e))"


text \<open>What the loop of \<^verbatim>\<open>toTasks\<close> maintains there: keys are unique, none is an
  inherited name, and no direction of a group is empty.\<close>

definition inv_tasks :: "tasks_obj \<Rightarrow> bool" where
  "inv_tasks tasks = (distinct (map fst tasks) \<and>
     (\<forall>k \<in> fst ` set tasks. k \<notin> set object_prototype_names) \<and>
     (\<forall>k g d s. map_of tasks k = Some g \<and> map_of g d = Some s \<longrightarrow> s \<noteq> []))"

text \<open>The groups and the tasks, before sorting, of a listing in such a process.\<close>

definition own_groups :: "taskfile list \<Rightarrow> tasks_obj" where
  "own_groups files = foldl add_own [] files"

definition own_tasks :: "taskfile list \<Rightarrow> task list" where
  "own_tasks files =
     List.map_filter (assemble fresh_prototype) (object_values (own_groups files))"

text \<open>A listing used in examples: task \<open>a\<close> with both input objects and a lone
  \<^verbatim>\<open>out.dat\<close>, task \<open>b\<close> with both input objects and no output, submitted later but
  listed first, and a name that is not a task object.\<close>

definition example_listing :: "taskfile list" where
  "example_listing = convertUrls
     [''7-b.in.sig'', ''index.html'', ''5-a.in.dat'', ''7-b.in.dat'', ''5-a.out.dat'',
      ''5-a.in.sig'']"


text \<open>A listing with objects under the task id \<^verbatim>\<open>__proto__\<close>, a pending task \<open>c\<close>
  without signature and a task \<open>b\<close> that has an output object.\<close>

definition example_polluting :: "taskfile list" where
  "example_polluting = convertUrls
     [''1-__proto__.in.dat'', ''1-__proto__.in.sig'', ''3-b.out.dat'', ''4-c.in.dat'',
      ''3-b.in.sig'']"



section \<open>Signing envelope and external command\<close>

text \<open>
  \<^verbatim>\<open>sign\<close> and \<^verbatim>\<open>verify\<close> call Node's \<^verbatim>\<open>crypto\<close> module and \<^verbatim>\<open>execSync\<close> runs the
  configured command; all three are parameters of the model. The command is given the
  path and the content of its input file. It either exits with a non-zero status
  (\<open>Failed\<close>, with the text of the error that \<^verbatim>\<open>execSync\<close> throws) or with status 0
  (\<open>Exited\<close>); in both cases it may have written the output file.
\<close>

type_synonym key = string

datatype cmd_result = Failed string "bytes option" | Exited "bytes option"

record env =
  sign :: "bytes \<Rightarrow> key \<Rightarrow> bytes"
  verify :: "bytes \<Rightarrow> bytes \<Rightarrow> key \<Rightarrow> bool"
  execSync :: "string \<Rightarrow> bytes \<Rightarrow> cmd_result"

record config =
  pollMillis :: int
  taskExpirationMillis :: int
  commandRetries :: int

text \<open>Errors that are thrown or rejected. \<open>error_text\<close> is \<^verbatim>\<open>e.toString()\<close>; the text
  of the file-system and type errors is abbreviated.\<close>

datatype error =
    RangeError
  | TypeError
  | NoSuchFile string
  | HttpStatus string
  | CommandFailed string
  | OutputNotCreated
  | DeleteRejected string
  | TimedOut
  | BadResultSignature
  | BadErrorSignature
  | RemoteTaskError string
  | NoOutputOrError

definition error_text :: "error \<Rightarrow> string" where
  "error_text e =
     (case e of
        RangeError \<Rightarrow> ''RangeError: Invalid time value''
      | TypeError \<Rightarrow> ''TypeError''
      | NoSuchFile p \<Rightarrow> ''Error: ENOENT: no such file or directory, '' @ p
      | HttpStatus u \<Rightarrow> ''HTTP status code 404''
      | CommandFailed m \<Rightarrow> m
      | OutputNotCreated \<Rightarrow> ''Error: Output file was not created''
      | DeleteRejected u \<Rightarrow> ''HTTP status code 404''
      | TimedOut \<Rightarrow> ''Error: Timed out''
      | BadResultSignature \<Rightarrow> ''Error: Received a result with a bad signature''
      | BadErrorSignature \<Rightarrow> ''Error: Received an error with a bad signature''
      | RemoteTaskError m \<Rightarrow> ''Error: '' @ m
      | NoOutputOrError \<Rightarrow> ''Error: No output or error file found'')"

section \<open>Process state\<close>

text \<open>
  A process sees the remote store, its local temporary directory (\<^verbatim>\<open>os.tmpdir()\<close>, as
  a list of file names with their content), the state of \<^verbatim>\<open>Object.prototype\<close> and,
  in the server, the retry counters \<^verbatim>\<open>runTask.retries\<close>. \<^verbatim>\<open>downloadFile\<close> writes the
  object to the local file named after it and resolves to that path; it rejects when
  the store does not hold the object. \<^verbatim>\<open>upload\<close> writes or replaces the object; a store
  that rejects an upload is not modelled.

  \<^verbatim>\<open>runTask.retries\<close> is a plain object. A value stored there is a number, or, once the
  code has added 1 to an inherited function or object, a string that is no numeral
  (\<open>NotANumber\<close>).
\<close>

datatype counter = Count nat | NotANumber

record state =
  store :: store
  tmp :: "(string \<times> bytes) list"
  retries :: "(string \<times> counter) list"
  proto :: prototype

definition downloadFile :: "state \<Rightarrow> string \<Rightarrow> error + string \<times> state" where
  "downloadFile st u =
     (case map_of (store st) u of
        None \<Rightarrow> Inl (HttpStatus u)
      | Some b \<Rightarrow> Inr (u, st\<lparr>tmp := AList.update u b (tmp st)\<rparr>))"

definition upload :: "state \<Rightarrow> string \<Rightarrow> bytes \<Rightarrow> state" where
  "upload st u b = st\<lparr>store := AList.update u b (store st)\<rparr>"

definition readFileSync :: "state \<Rightarrow> string \<Rightarrow> error + bytes" where
  "readFileSync st p = (case map_of (tmp st) p of None \<Rightarrow> Inl (NoSuchFile p) | Some b \<Rightarrow> Inr b)"

definition unlinkSync :: "state \<Rightarrow> string \<Rightarrow> error + state" where
  "unlinkSync st p =
     (case map_of (tmp st) p of
        None \<Rightarrow> Inl (NoSuchFile p)
      | Some _ \<Rightarrow> Inr (st\<lparr>tmp := AList.delete p (tmp st)\<rparr>))"

definition existsSync :: "state \<Rightarrow> string \<Rightarrow> bool" where
  "existsSync st p = (map_of (tmp st) p \<noteq> None)"

text \<open>\<^verbatim>\<open>s.replace(pat, rep)\<close> with a string pattern replaces the first occurrence.\<close>

fun replace_first :: "string \<Rightarrow> string \<Rightarrow> string \<Rightarrow> string" where
  "replace_first pat rep [] = (if pat = [] then rep else [])"
| "replace_first pat rep (c # cs) =
     (if take (length pat) (c # cs) = pat then rep @ drop (length pat) (c # cs)
      else c # replace_first pat rep cs)"

section \<open>Server: running one task\<close>

text \<open>\<^verbatim>\<open>task.in.dat\<close>, \<^verbatim>\<open>task.out.sig\<close> and the like.\<close>

definition task_file :: "slots option \<Rightarrow> kind \<Rightarrow> taskfile option" where
  "task_file ss e = (case ss of None \<Rightarrow> None | Some s \<Rightarrow> map_of s e)"

text \<open>
  \<^verbatim>\<open>uploadTaskResult(config, task, outFile, error, serverPrivateKey)\<close>: \<open>outFile\<close> is
  the path of the output file or \<^verbatim>\<open>null\<close>.
\<close>

definition uploadTaskResult ::
  "env \<Rightarrow> task \<Rightarrow> string option \<Rightarrow> string \<Rightarrow> key \<Rightarrow> state \<Rightarrow> error option \<times> state" where
  "uploadTaskResult ev t outFile err serverPrivateKey st =
     (case (case outFile of None \<Rightarrow> Inr err | Some p \<Rightarrow> readFileSync st p) of
        Inl e \<Rightarrow> (Some e, st)
      | Inr data \<Rightarrow>
          let dataExt = (case outFile of None \<Rightarrow> Err | Some _ \<Rightarrow> Dat);
              signature = sign ev data serverPrivateKey;
              st1 = upload st (getTaskFileUrl (task_date t) (task_id t) Out dataExt) data;
              st2 = upload st1 (getTaskFileUrl (task_date t) (task_id t) Out Sig) signature
          in (None, st2))"

text \<open>The body of the \<^verbatim>\<open>try\<close> block of \<^verbatim>\<open>runTask\<close>; on a throw the state is the one
  reached so far.\<close>

definition run_command ::
  "env \<Rightarrow> task \<Rightarrow> string \<Rightarrow> string \<Rightarrow> bytes \<Rightarrow> key \<Rightarrow> state \<Rightarrow> error option \<times> state" where
  "run_command ev t inFile outFile input serverPrivateKey st =
     (let written = (\<lambda>out. case out of None \<Rightarrow> st
                               | Some b \<Rightarrow> st\<lparr>tmp := AList.update outFile b (tmp st)\<rparr>)
      in case execSync ev inFile input of
        Failed msg out \<Rightarrow> (Some (CommandFailed msg), written out)
      | Exited out \<Rightarrow>
          let st1 = written out in
          if \<not> existsSync st1 outFile then (Some OutputNotCreated, st1)
          else case unlinkSync st1 inFile of
            Inl e \<Rightarrow> (Some e, st1)
          | Inr st2 \<Rightarrow>
              (case uploadTaskResult ev t (Some outFile) [] serverPrivateKey st2 of
                 (Some e, st3) \<Rightarrow> (Some e, st3)
               | (None, st3) \<Rightarrow>
                   (case unlinkSync st3 outFile of
                      Inl e \<Rightarrow> (Some e, st3)
                    | Inr st4 \<Rightarrow> (None, st4))))"

text \<open>
  The \<^verbatim>\<open>catch\<close> block. \<^verbatim>\<open>runTask.retries[task.id] || 0\<close> reads the own property or,
  failing that, an inherited one, which is a function or an object; a stored 0 and a
  missing property both give 0. Adding 1 to anything but a number makes a string.
  The assignment stores the new value as own property, except for \<^verbatim>\<open>__proto__\<close>, whose
  setter ignores a string. \<^verbatim>\<open>retryCount >= config.commandRetries\<close> is false when
  \<open>retryCount\<close> is no number.
\<close>

definition handle_failure ::
  "env \<Rightarrow> config \<Rightarrow> task \<Rightarrow> string \<Rightarrow> error \<Rightarrow> key \<Rightarrow> state \<Rightarrow> error option \<times> state" where
  "handle_failure ev cfg t inFile e serverPrivateKey st =
     (let retryCount =
            (case map_of (retries st) (task_id t) of
               Some c \<Rightarrow> c
             | None \<Rightarrow> if inherits (proto st) (task_id t) then NotANumber else Count 0);
          next = (case retryCount of Count n \<Rightarrow> Count (n + 1) | NotANumber \<Rightarrow> NotANumber);
          st1 = (if task_id t = ''__proto__'' then st
                 else st\<lparr>retries := AList.update (task_id t) next (retries st)\<rparr>)
      in if (case retryCount of Count n \<Rightarrow> int n \<ge> commandRetries cfg | NotANumber \<Rightarrow> False)
         then let st2 = st1\<lparr>retries := AList.delete (task_id t) (retries st1)\<rparr>
              in case unlinkSync st2 inFile of
                   Inl e' \<Rightarrow> (Some e', st2)
                 | Inr st3 \<Rightarrow> uploadTaskResult ev t None (error_text e) serverPrivateKey st3
         else (None, st1))"

text \<open>
  \<^verbatim>\<open>runTask(config, task, clientPublicKey, serverPrivateKey)\<close>. The result is the error
  the call throws, if any, and the state it leaves. The first statement logs
  \<^verbatim>\<open>task.date.toISOString()\<close>, which throws on an Invalid Date.
\<close>

definition runTask ::
  "env \<Rightarrow> config \<Rightarrow> task \<Rightarrow> key \<Rightarrow> key \<Rightarrow> state \<Rightarrow> error option \<times> state" where
  "runTask ev cfg t clientPublicKey serverPrivateKey st =
     (if task_date t = InvalidDate then (Some RangeError, st)
      else case task_file (task_in t) Dat of
        None \<Rightarrow> (Some TypeError, st)
      | Some fdat \<Rightarrow>
      (case downloadFile st (url fdat) of
        Inl e \<Rightarrow> (Some e, st)
      | Inr (inFile, st1) \<Rightarrow>
      (case task_file (task_in t) Sig of
        None \<Rightarrow> (Some TypeError, st1)
      | Some fsig \<Rightarrow>
      (case downloadFile st1 (url fsig) of
        Inl e \<Rightarrow> (Some e, st1)
      | Inr (sigFile, st2) \<Rightarrow>
      (case readFileSync st2 sigFile of
        Inl e \<Rightarrow> (Some e, st2)
      | Inr signature \<Rightarrow>
      (case unlinkSync st2 sigFile of
        Inl e \<Rightarrow> (Some e, st2)
      | Inr st3 \<Rightarrow>
      (case readFileSync st3 inFile of
        Inl e \<Rightarrow> (Some e, st3)
      | Inr input \<Rightarrow>
          if verify ev input signature clientPublicKey
          then let outFile = replace_first ''.in.dat'' ''.out.dat'' inFile in
            (case run_command ev t inFile outFile input serverPrivateKey st3 of
               (None, st4) \<Rightarrow> (None, st4)
             | (Some e, st4) \<Rightarrow> handle_failure ev cfg t inFile e serverPrivateKey st4)
          else
            (case unlinkSync st3 inFile of
               Inl e \<Rightarrow> (Some e, st3)
             | Inr st4 \<Rightarrow>
                 uploadTaskResult ev t None ''Bad signature'' serverPrivateKey st4))))))))"

text \<open>The state after \<open>n\<close> iterations of the server loop that each run the same task.\<close>

fun attempts ::
  "nat \<Rightarrow> env \<Rightarrow> config \<Rightarrow> task \<Rightarrow> key \<Rightarrow> key \<Rightarrow> state \<Rightarrow> state" where
  "attempts 0 ev cfg t cpk spk st = st"
| "attempts (Suc n) ev cfg t cpk spk st =
     snd (runTask ev cfg t cpk spk (attempts n ev cfg t cpk spk st))"

text \<open>
  One iteration of the loop of \<^verbatim>\<open>startServer\<close>: list and sweep, assemble, keep the tasks
  without \<^verbatim>\<open>out\<close>, run the first one if there is one. An error thrown by \<^verbatim>\<open>runTask\<close>
  is caught and logged by the loop. \<open>now\<close> is the clock reading of the sweep. The
  result is \<open>None\<close> where \<open>toTasks\<close> is.
\<close>

definition server_iteration ::
  "string set \<Rightarrow> env \<Rightarrow> config \<Rightarrow> key \<Rightarrow> key \<Rightarrow> int \<Rightarrow> state \<Rightarrow> state option" where
  "server_iteration rejected ev cfg clientPublicKey serverPrivateKey now st =
     (case deleteExpiredFiles rejected now (taskExpirationMillis cfg) (store st)
             (convertUrls (map fst (store st))) of
        (files, s') \<Rightarrow>
          (case next_task (proto st) files of
             None \<Rightarrow> None
           | Some (None, P') \<Rightarrow> Some (st\<lparr>store := s', proto := P'\<rparr>)
           | Some (Some t, P') \<Rightarrow>
               Some (snd (runTask ev cfg t clientPublicKey serverPrivateKey
                            (st\<lparr>store := s', proto := P'\<rparr>)))))"

text \<open>The loop of \<^verbatim>\<open>startServer\<close>, for as many iterations as there are clock readings.\<close>

fun server_loop ::
  "string set \<Rightarrow> env \<Rightarrow> config \<Rightarrow> key \<Rightarrow> key \<Rightarrow> int list \<Rightarrow> state \<Rightarrow> state option" where
  "server_loop rejected ev cfg clientPublicKey serverPrivateKey [] st = Some st"
| "server_loop rejected ev cfg clientPublicKey serverPrivateKey (now # nows) st =
     (case server_iteration rejected ev cfg clientPublicKey serverPrivateKey now st of
        None \<Rightarrow> None
      | Some st' \<Rightarrow> server_loop rejected ev cfg clientPublicKey serverPrivateKey nows st')"

text \<open>The state of \<^verbatim>\<open>runTask\<close> once both input objects are downloaded and the local
  signature file is read and removed.\<close>

definition fetched :: "state \<Rightarrow> string \<Rightarrow> bytes \<Rightarrow> string \<Rightarrow> bytes \<Rightarrow> state" where
  "fetched st ud input us sg =
     st\<lparr>tmp := AList.delete us (AList.update us sg (AList.update ud input (tmp st)))\<rparr>"

text \<open>
  Example data: a toy signature scheme (the signature of \<open>d\<close> under \<^verbatim>\<open>priv-x\<close> is
  \<^verbatim>\<open>x:d\<close>, checked against \<^verbatim>\<open>pub-x\<close>), a command that always fails, a budget of two
  retries, the task \<open>b\<close> of the example listing, and two stores that hold its input:
  one signed by the client, one signed by somebody else.
\<close>

definition example_env :: env where
  "example_env =
     \<lparr>sign = (\<lambda>d k. drop 5 k @ '':'' @ d),
      verify = (\<lambda>d s k. s = drop 4 k @ '':'' @ d),
      execSync = (\<lambda>p b. Failed ''Error: Command failed: run_task.sh'' None)\<rparr>"

definition example_config :: config where
  "example_config = \<lparr>pollMillis = 5000, taskExpirationMillis = 600000, commandRetries = 2\<rparr>"

definition example_task :: task where
  "example_task =
     \<lparr>task_in = Some
        [(Sig, \<lparr>date = Date 7, taskId = ''b'', inout = In, ext = Sig, url = ''7-b.in.sig''\<rparr>),
         (Dat, \<lparr>date = Date 7, taskId = ''b'', inout = In, ext = Dat, url = ''7-b.in.dat''\<rparr>)],
      task_out = None, task_date = Date 7, task_id = ''b''\<rparr>"

definition example_state :: state where
  "example_state =
     \<lparr>store = [(''7-b.in.dat'', ''alice''), (''7-b.in.sig'', ''client:alice'')],
      tmp = [], retries = [], proto = fresh_prototype\<rparr>"

definition example_forged :: state where
  "example_forged =
     \<lparr>store = [(''7-b.in.dat'', ''alice''), (''7-b.in.sig'', ''mallory:alice'')],
      tmp = [], retries = [], proto = fresh_prototype\<rparr>"

text \<open>A store that lists as \<open>example_polluting\<close>, in a fresh server process.\<close>

definition example_polluting_state :: state where
  "example_polluting_state =
     \<lparr>store = [(''1-__proto__.in.dat'', ''mallory''), (''1-__proto__.in.sig'', ''x''),
               (''3-b.out.dat'', ''Hello, bob!''), (''4-c.in.dat'', ''carol''),
               (''3-b.in.sig'', ''client:bob'')],
      tmp = [], retries = [], proto = fresh_prototype\<rparr>"

text \<open>A store whose listing makes the server select a task with the id
  \<^verbatim>\<open>constructor\<close>: the object under \<^verbatim>\<open>__proto__\<close> creates \<^verbatim>\<open>Object.prototype.in\<close>, where the
  signature object of \<^verbatim>\<open>constructor\<close> and the data object of \<open>z\<close> are then stored.\<close>

definition example_inherited_state :: state where
  "example_inherited_state =
     \<lparr>store = [(''1-__proto__.in.dat'', ''mallory''), (''5-constructor.in.sig'', ''client:alice''),
               (''5-z.in.dat'', ''alice'')],
      tmp = [], retries = [], proto = fresh_prototype\<rparr>"

text \<open>A command that exits normally and writes no output file.\<close>

definition example_silent_env :: env where
  "example_silent_env = example_env\<lparr>execSync := (\<lambda>p b. Exited None)\<rparr>"

section \<open>Client session\<close>

text \<open>
  \<^verbatim>\<open>runRemoteTask\<close> first signs the input and uploads \<^verbatim>\<open>in.dat\<close> and then \<^verbatim>\<open>in.sig\<close> under
  the task id (16 random bytes in hexadecimal) and the submission time \<^verbatim>\<open>dt\<close>.
\<close>

definition submit :: "env \<Rightarrow> key \<Rightarrow> bytes \<Rightarrow> string \<Rightarrow> int \<Rightarrow> state \<Rightarrow> state" where
  "submit ev clientPrivateKey inputData tid dt st =
     (let inputSignature = sign ev inputData clientPrivateKey;
          st1 = upload st (getTaskFileUrl (Date dt) tid In Dat) inputData
      in upload st1 (getTaskFileUrl (Date dt) tid In Sig) inputSignature)"











text \<open>Example data: a store in which the server has answered task \<open>b\<close> with a signed
  error, next to an object of another task, and the task as the client assembles it.\<close>

definition example_done :: state where
  "example_done =
     \<lparr>store = [(''7-b.in.dat'', ''alice''), (''7-b.in.sig'', ''client:alice''),
               (''9-c.in.dat'', ''carol''),
               (''7-b.out.err'', ''boom''), (''7-b.out.sig'', ''server:boom'')],
      tmp = [], retries = [], proto = fresh_prototype\<rparr>"

definition example_done_task :: task where
  "example_done_task =
     \<lparr>task_in = Some
        [(Dat, \<lparr>date = Date 7, taskId = ''b'', inout = In, ext = Dat, url = ''7-b.in.dat''\<rparr>),
         (Sig, \<lparr>date = Date 7, taskId = ''b'', inout = In, ext = Sig, url = ''7-b.in.sig''\<rparr>)],
      task_out = Some
        [(Err, \<lparr>date = Date 7, taskId = ''b'', inout = Out, ext = Err, url = ''7-b.out.err''\<rparr>),
         (Sig, \<lparr>date = Date 7, taskId = ''b'', inout = Out, ext = Sig, url = ''7-b.out.sig''\<rparr>)],
      task_date = Date 7, task_id = ''b''\<rparr>"

section \<open>Properties of the object naming codec\<close>

lemma below_ten: "d < 10 \<Longrightarrow> d \<in> {0, 1, 2, 3, 4, 5, 6, 7, 8, 9::nat}"
  by auto

lemma digit_char_is_digit: "d < 10 \<Longrightarrow> is_digit (digit_char d)"
  by (drule below_ten) (auto simp: is_digit_def digit_char_def digit_chars_def)

lemma digit_val_digit_char: "d < 10 \<Longrightarrow> digit_val (digit_char d) = d"
proof -
  assume "d < 10"
  then have "d \<in> {0,1,2,3,4,5,6,7,8,9}" by auto
  then show ?thesis
    by (auto simp: digit_val_def digit_char_def digit_chars_def)
qed

lemma show_nat_digits: "list_all is_digit (show_nat n)"
proof (induction n rule: show_nat.induct)
  case (1 n)
  show ?case
  proof (cases "n < 10")
    case True
    then show ?thesis by (subst show_nat.simps) (simp add: digit_char_is_digit)
  next
    case False
    with 1 show ?thesis by (subst show_nat.simps) (simp add: digit_char_is_digit)
  qed
qed

lemma show_nat_nonempty: "show_nat n \<noteq> []"
  by (subst show_nat.simps) simp

lemma number_of_digits_snoc:
  "number_of_digits (s @ [c]) = 10 * number_of_digits s + digit_val c"
  by (simp add: number_of_digits_def)

lemma number_of_digits_show_nat: "number_of_digits (show_nat n) = n"
proof (induction n rule: show_nat.induct)
  case (1 n)
  show ?case
  proof (cases "n < 10")
    case True
    then show ?thesis
      by (subst show_nat.simps) (simp add: number_of_digits_def digit_val_digit_char)
  next
    case False
    with 1 show ?thesis
      by (subst show_nat.simps) (simp add: number_of_digits_snoc digit_val_digit_char)
  qed
qed

lemma not_digit_dash: "\<not> is_digit CHR ''-''"
  by (simp add: is_digit_def digit_chars_def)

lemma not_word_dot: "\<not> is_word CHR ''.''"
  by (simp add: is_word_def digit_chars_def)

lemma takeWhile_all: "list_all P xs \<Longrightarrow> \<not> P y \<Longrightarrow> takeWhile P (xs @ y # ys) = xs"
  by (induction xs) auto

lemma dropWhile_all: "list_all P xs \<Longrightarrow> \<not> P y \<Longrightarrow> dropWhile P (xs @ y # ys) = y # ys"
  by (induction xs) auto

lemma match_suffix_str: "match_suffix (''.'' @ inout_str io @ ''.'' @ ext_str e) = Some (io, e)"
  by (cases io; cases e) (simp_all add: match_suffix_def inout_str_def ext_str_def)

lemma match_suffix_Some:
  "match_suffix s = Some (io, e) \<Longrightarrow> s = ''.'' @ inout_str io @ ''.'' @ ext_str e"
  by (auto simp: match_suffix_def inout_str_def ext_str_def split: if_splits)

lemma convertUrl_parts:
  assumes "ds \<noteq> []" "list_all is_digit ds" "tid \<noteq> []" "list_all is_word tid"
    and "match_suffix (CHR ''.'' # r) = Some (io, e)"
  shows "convertUrl (ds @ CHR ''-'' # tid @ CHR ''.'' # r) =
     Some \<lparr>date = newDate (number_of_digits ds), taskId = tid, inout = io, ext = e,
           url = ds @ CHR ''-'' # tid @ CHR ''.'' # r\<rparr>"
  using assms
  by (simp add: convertUrl_def Let_def takeWhile_all dropWhile_all not_digit_dash not_word_dot)

lemma convertUrl_grammar_parts:
  assumes "ds \<noteq> []" "list_all is_digit ds" "tid \<noteq> []" "list_all is_word tid"
  shows "convertUrl (ds @ ''-'' @ tid @ ''.'' @ inout_str io @ ''.'' @ ext_str e) =
     Some \<lparr>date = newDate (number_of_digits ds), taskId = tid, inout = io, ext = e,
           url = ds @ ''-'' @ tid @ ''.'' @ inout_str io @ ''.'' @ ext_str e\<rparr>"
  using convertUrl_parts[OF assms, of "inout_str io @ ''.'' @ ext_str e" io e]
    match_suffix_str[of io e]
  by simp

lemma convertUrl_Some_grammar:
  assumes "convertUrl u = Some f"
  shows "matches_grammar u"
proof -
  let ?ds = "takeWhile is_digit u"
  from assms have ds: "?ds \<noteq> []"
    by (auto simp: convertUrl_def Let_def split: if_splits)
  from assms ds obtain r2 where r1: "dropWhile is_digit u = CHR ''-'' # r2"
    by (auto simp: convertUrl_def Let_def split: if_splits list.splits)
  let ?tid = "takeWhile is_word r2"
  from assms ds r1 have tid: "?tid \<noteq> []"
    by (auto simp: convertUrl_def Let_def split: if_splits)
  from assms ds r1 tid obtain io e where ms: "match_suffix (dropWhile is_word r2) = Some (io, e)"
    by (auto simp: convertUrl_def Let_def split: if_splits option.splits)
  have "u = ?ds @ dropWhile is_digit u" by simp
  also have "\<dots> = ?ds @ ''-'' @ r2" using r1 by simp
  also have "r2 = ?tid @ dropWhile is_word r2" by simp
  finally have "u = ?ds @ ''-'' @ ?tid @ ''.'' @ inout_str io @ ''.'' @ ext_str e"
    using match_suffix_Some[OF ms] by simp
  moreover have "list_all is_digit ?ds" "list_all is_word ?tid"
    by (simp_all add: list_all_iff) (meson set_takeWhileD)+
  ultimately show ?thesis
    unfolding matches_grammar_def using ds tid by blast
qed

lemma show_time_nonneg:
  "0 \<le> t \<Longrightarrow> show_time (Date t) = show_nat (nat t)"
  by (simp add: show_time_def)

lemma newDate_in_range: "0 \<le> t \<Longrightarrow> t \<le> maxTime \<Longrightarrow> newDate (nat t) = Date t"
  by (simp add: newDate_def)

text \<open>
  Claim C6, as amended. Decoding the name that \<^verbatim>\<open>getTaskFileUrl\<close> produces gives back
  the timestamp, task id, direction and kind (and the name itself as \<^verbatim>\<open>url\<close>), for
  every time value between 0 and 8.64e15 (the non-negative range of a valid Date),
  every non-empty task id of word characters, both directions and all three kinds.
  Decoding a name that does not match the grammar gives nothing.
\<close>

theorem codec_roundtrip_and_reject:
  "(0 \<le> t \<and> t \<le> maxTime \<and> tid \<noteq> [] \<and> list_all is_word tid \<longrightarrow>
      convertUrl (getTaskFileUrl (Date t) tid io e) =
        Some \<lparr>date = Date t, taskId = tid, inout = io, ext = e,
              url = getTaskFileUrl (Date t) tid io e\<rparr>) \<and>
   (\<not> matches_grammar name \<longrightarrow> convertUrl name = None)"
proof (intro conjI impI)
  assume h: "0 \<le> t \<and> t \<le> maxTime \<and> tid \<noteq> [] \<and> list_all is_word tid"
  have "convertUrl (show_nat (nat t) @ ''-'' @ tid @ ''.'' @ inout_str io @ ''.'' @ ext_str e) =
     Some \<lparr>date = newDate (number_of_digits (show_nat (nat t))), taskId = tid, inout = io,
           ext = e, url = show_nat (nat t) @ ''-'' @ tid @ ''.'' @ inout_str io @ ''.'' @ ext_str e\<rparr>"
    using h by (intro convertUrl_grammar_parts show_nat_nonempty show_nat_digits) simp_all
  then show "convertUrl (getTaskFileUrl (Date t) tid io e) =
        Some \<lparr>date = Date t, taskId = tid, inout = io, ext = e,
              url = getTaskFileUrl (Date t) tid io e\<rparr>"
    using h by (simp add: getTaskFileUrl_def show_time_nonneg number_of_digits_show_nat
        newDate_in_range)
next
  assume "\<not> matches_grammar name"
  then show "convertUrl name = None"
    using convertUrl_Some_grammar by (cases "convertUrl name") auto
qed

lemma show_nat_1604: "show_nat 1604 = ''1604''"
  by (simp add: show_nat.simps digit_char_def digit_chars_def)

theorem codec_roundtrip_and_reject_witness:
  "convertUrl ''1604-a3f_9.out.err'' =
      Some \<lparr>date = Date 1604, taskId = ''a3f_9'', inout = Out, ext = Err,
            url = ''1604-a3f_9.out.err''\<rparr> \<and>
   \<not> matches_grammar ''index.html'' \<and> convertUrl ''index.html'' = None"
proof -
  have g: "\<not> matches_grammar ''index.html''"
  proof
    assume "matches_grammar ''index.html''"
    then obtain ds r where "ds \<noteq> []" "list_all is_digit ds" "''index.html'' = ds @ r"
      unfolding matches_grammar_def by blast
    then show False
      by (cases ds) (auto simp: is_digit_def digit_chars_def)
  qed
  have w: "list_all is_word ''a3f_9''"
    by (simp add: is_word_def digit_chars_def)
  from codec_roundtrip_and_reject [of 1604 "''a3f_9''" Out Err "''index.html''"] g w
  show ?thesis
    by (simp add: getTaskFileUrl_def show_time_def show_nat_1604 maxTime_def
        inout_str_def ext_str_def)
qed

text \<open>
  The roundtrip does not hold for every task id of word characters nor for every
  timestamp: the empty task id and a time value before the epoch both encode to a name
  that the pattern rejects.
\<close>

theorem codec_roundtrip_counterexample:
  "list_all is_word [] \<and> convertUrl (getTaskFileUrl (Date 5) [] In Dat) = None \<and>
   convertUrl (getTaskFileUrl (Date (- 5)) ''ab'' In Dat) = None"
  by (simp add: getTaskFileUrl_def show_time_def show_nat.simps digit_char_def digit_chars_def
      inout_str_def ext_str_def convertUrl_def is_digit_def is_word_def)

section \<open>Properties of the garbage collector\<close>

lemma expired_iff: "expired now e f = date_before (date f) (now - e * 2)"
  by (auto simp: expired_def date_before_def split: jsdate.splits)

lemma sweep_loop_fst:
  "fst (sweep_loop rejected x fs res st) =
     res @ filter (\<lambda>f. \<not> date_before (date f) x) fs"
  by (induction fs arbitrary: res st) (auto simp: deleteFile_def)

lemma sweep_loop_snd:
  "snd (sweep_loop rejected x fs res st) =
     filter (\<lambda>p. \<not> (\<exists>f \<in> set fs. date_before (date f) x \<and> url f = fst p \<and> url f \<notin> rejected)) st"
proof (induction fs arbitrary: res st)
  case Nil
  then show ?case by simp
next
  case (Cons f fs)
  show ?case
  proof (cases "date_before (date f) x \<and> url f \<notin> rejected")
    case True
    then show ?thesis
      by (auto simp: deleteFile_def Cons.IH AList.delete_eq intro!: filter_cong)
  next
    case False
    then show ?thesis
      by (auto simp: deleteFile_def Cons.IH intro!: filter_cong)
  qed
qed

lemma map_of_filter_keep:
  "(\<And>v. (k, v) \<in> set st \<Longrightarrow> P (k, v)) \<Longrightarrow> map_of (filter P st) k = map_of st k"
  by (induction st) auto

text \<open>
  Claim C3. For every object list, every reading \<open>now\<close> of the clock and every
  \<^verbatim>\<open>taskExpirationMillis\<close>, the sweep returns exactly the objects that are not expired,
  in listing order, and removes from the store exactly the objects that are expired
  (\<open>now - createdAt > 2 \<times> expirationMillis\<close>) and whose deletion the backend does not
  reject. An object with \<open>now - createdAt = 2 \<times> expirationMillis + 1\<close> is swept, one with
  \<open>now - createdAt = 2 \<times> expirationMillis - 1\<close> is kept.
\<close>

theorem sweep_policy:
  "fst (deleteExpiredFiles rejected now e st files) = filter (\<lambda>f. \<not> expired now e f) files \<and>
   snd (deleteExpiredFiles rejected now e st files) =
     filter (\<lambda>p. \<not> (\<exists>f \<in> set files. expired now e f \<and> url f = fst p \<and> url f \<notin> rejected)) st \<and>
   (f \<in> set files \<and> date f = Date t \<and> now - t = 2 * e + 1 \<longrightarrow>
      f \<notin> set (fst (deleteExpiredFiles rejected now e st files)) \<and>
      (url f \<notin> rejected \<longrightarrow> map_of (snd (deleteExpiredFiles rejected now e st files)) (url f) = None)) \<and>
   (f \<in> set files \<and> date f = Date t \<and> now - t = 2 * e - 1 \<longrightarrow>
      f \<in> set (fst (deleteExpiredFiles rejected now e st files)))"
proof -
  have 1: "fst (deleteExpiredFiles rejected now e st files) = filter (\<lambda>f. \<not> expired now e f) files"
    by (simp add: deleteExpiredFiles_def sweep_loop_fst expired_iff)
  have 2: "snd (deleteExpiredFiles rejected now e st files) =
     filter (\<lambda>p. \<not> (\<exists>f \<in> set files. expired now e f \<and> url f = fst p \<and> url f \<notin> rejected)) st"
    by (simp add: deleteExpiredFiles_def sweep_loop_snd expired_iff)
  have 3: "map_of (snd (deleteExpiredFiles rejected now e st files)) (url f) = None"
    if "f \<in> set files" "expired now e f" "url f \<notin> rejected"
    unfolding 2 using that by (auto simp: map_of_eq_None_iff)
  show ?thesis
    using 1 2 3 by (auto simp: expired_def)
qed


theorem sweep_policy_witness:
  "fst (deleteExpiredFiles {} 100 10 [(''79-a.in.dat'', ''x''), (''81-b.in.dat'', ''y'')]
      [\<lparr>date = Date 79, taskId = ''a'', inout = In, ext = Dat, url = ''79-a.in.dat''\<rparr>,
       \<lparr>date = Date 81, taskId = ''b'', inout = In, ext = Dat, url = ''81-b.in.dat''\<rparr>]) =
     [\<lparr>date = Date 81, taskId = ''b'', inout = In, ext = Dat, url = ''81-b.in.dat''\<rparr>] \<and>
   snd (deleteExpiredFiles {} 100 10 [(''79-a.in.dat'', ''x''), (''81-b.in.dat'', ''y'')]
      [\<lparr>date = Date 79, taskId = ''a'', inout = In, ext = Dat, url = ''79-a.in.dat''\<rparr>,
       \<lparr>date = Date 81, taskId = ''b'', inout = In, ext = Dat, url = ''81-b.in.dat''\<rparr>]) =
     [(''81-b.in.dat'', ''y'')]"
  using sweep_policy [of "{}" 100 10 "[(''79-a.in.dat'', ''x''), (''81-b.in.dat'', ''y'')]"
      "[\<lparr>date = Date 79, taskId = ''a'', inout = In, ext = Dat, url = ''79-a.in.dat''\<rparr>,
       \<lparr>date = Date 81, taskId = ''b'', inout = In, ext = Dat, url = ''81-b.in.dat''\<rparr>]"
      "\<lparr>date = Date 79, taskId = ''a'', inout = In, ext = Dat, url = ''79-a.in.dat''\<rparr>" 79]
  by (simp add: expired_def)

text \<open>
  Claim C2, as amended. When the backend rejects the deletion of an expired object, the
  sweep goes on over the whole listing: the returned list is the list of the objects
  that are not expired, so the object is left out of it like every expired object; the
  object stays in the store, where the next listing finds it again; every expired object
  of the listing whose deletion is not rejected, before or after it, is removed from the
  store; and the store after the sweep is the store before it without exactly those
  objects.
\<close>

theorem sweep_delete_rejected:
  assumes "f \<in> set files" and "expired now e f" and "url f \<in> rejected"
  shows "fst (deleteExpiredFiles rejected now e st files) = filter (\<lambda>g. \<not> expired now e g) files \<and>
         f \<notin> set (fst (deleteExpiredFiles rejected now e st files)) \<and>
         map_of (snd (deleteExpiredFiles rejected now e st files)) (url f) = map_of st (url f) \<and>
         (\<forall>g \<in> set files. expired now e g \<and> url g \<notin> rejected \<longrightarrow>
            map_of (snd (deleteExpiredFiles rejected now e st files)) (url g) = None) \<and>
         snd (deleteExpiredFiles rejected now e st files) =
           filter (\<lambda>p. \<not> (\<exists>g \<in> set files. expired now e g \<and> url g = fst p \<and> url g \<notin> rejected)) st"
proof -
  have 1: "fst (deleteExpiredFiles rejected now e st files) = filter (\<lambda>g. \<not> expired now e g) files"
    by (simp add: deleteExpiredFiles_def sweep_loop_fst expired_iff)
  have 2: "snd (deleteExpiredFiles rejected now e st files) =
     filter (\<lambda>p. \<not> (\<exists>g \<in> set files. expired now e g \<and> url g = fst p \<and> url g \<notin> rejected)) st"
    by (simp add: deleteExpiredFiles_def sweep_loop_snd expired_iff)
  have 3: "map_of (snd (deleteExpiredFiles rejected now e st files)) (url f) = map_of st (url f)"
    unfolding deleteExpiredFiles_def sweep_loop_snd
    by (rule map_of_filter_keep) (use assms(3) in auto)
  have 4: "\<forall>g \<in> set files. expired now e g \<and> url g \<notin> rejected \<longrightarrow>
            map_of (snd (deleteExpiredFiles rejected now e st files)) (url g) = None"
    unfolding 2 by (auto simp: map_of_eq_None_iff)
  have 5: "f \<notin> set (fst (deleteExpiredFiles rejected now e st files))"
    unfolding 1 using assms(2) by simp
  from 1 2 3 4 5 show ?thesis by blast
qed

theorem sweep_delete_rejected_witness:
  "expired 100 10 \<lparr>date = Date 1, taskId = ''a'', inout = In, ext = Dat, url = ''1-a.in.dat''\<rparr> \<and>
   fst (deleteExpiredFiles {''1-a.in.dat''} 100 10
      [(''1-a.in.dat'', ''x''), (''2-c.in.dat'', ''z''), (''95-b.in.dat'', ''y'')]
      [\<lparr>date = Date 1, taskId = ''a'', inout = In, ext = Dat, url = ''1-a.in.dat''\<rparr>,
       \<lparr>date = Date 2, taskId = ''c'', inout = In, ext = Dat, url = ''2-c.in.dat''\<rparr>,
       \<lparr>date = Date 95, taskId = ''b'', inout = In, ext = Dat, url = ''95-b.in.dat''\<rparr>]) =
     [\<lparr>date = Date 95, taskId = ''b'', inout = In, ext = Dat, url = ''95-b.in.dat''\<rparr>] \<and>
   snd (deleteExpiredFiles {''1-a.in.dat''} 100 10
      [(''1-a.in.dat'', ''x''), (''2-c.in.dat'', ''z''), (''95-b.in.dat'', ''y'')]
      [\<lparr>date = Date 1, taskId = ''a'', inout = In, ext = Dat, url = ''1-a.in.dat''\<rparr>,
       \<lparr>date = Date 2, taskId = ''c'', inout = In, ext = Dat, url = ''2-c.in.dat''\<rparr>,
       \<lparr>date = Date 95, taskId = ''b'', inout = In, ext = Dat, url = ''95-b.in.dat''\<rparr>]) =
     [(''1-a.in.dat'', ''x''), (''95-b.in.dat'', ''y'')]"
  using sweep_delete_rejected [of "\<lparr>date = Date 1, taskId = ''a'', inout = In, ext = Dat, url = ''1-a.in.dat''\<rparr>"
      "[\<lparr>date = Date 1, taskId = ''a'', inout = In, ext = Dat, url = ''1-a.in.dat''\<rparr>,
       \<lparr>date = Date 2, taskId = ''c'', inout = In, ext = Dat, url = ''2-c.in.dat''\<rparr>,
       \<lparr>date = Date 95, taskId = ''b'', inout = In, ext = Dat, url = ''95-b.in.dat''\<rparr>]"
      100 10 "{''1-a.in.dat''}"
      "[(''1-a.in.dat'', ''x''), (''2-c.in.dat'', ''z''), (''95-b.in.dat'', ''y'')]"]
  by (simp add: expired_def)

text \<open>
  Claim C2 as stated fails: an expired object whose deletion is rejected is not in the
  list that the sweep returns.
\<close>

theorem sweep_keeps_rejected_counterexample:
  "expired 100 10 \<lparr>date = Date 1, taskId = ''a'', inout = In, ext = Dat, url = ''1-a.in.dat''\<rparr> \<and>
   \<lparr>date = Date 1, taskId = ''a'', inout = In, ext = Dat, url = ''1-a.in.dat''\<rparr> \<notin>
     set (fst (deleteExpiredFiles {''1-a.in.dat''} 100 10 [(''1-a.in.dat'', ''x'')]
       [\<lparr>date = Date 1, taskId = ''a'', inout = In, ext = Dat, url = ''1-a.in.dat''\<rparr>]))"
  by (simp add: expired_def deleteExpiredFiles_def date_before_def deleteFile_def)


section \<open>Properties of the assembler\<close>

text \<open>The last file listed for a slot.\<close>


lemma slot_snoc:
  "slot (files @ [f]) k d e =
     (if taskId f = k \<and> inout f = d \<and> ext f = e then Some f else slot files k d e)"
  by (simp add: slot_def)

lemma slot_Nil: "slot [] k d e = None"
  by (simp add: slot_def)

lemma slot_cases:
  "slot files k d e =
     (let xs = filter (\<lambda>f. taskId f = k \<and> inout f = d \<and> ext f = e) files
      in if xs = [] then None else Some (last xs))"
  by (simp add: slot_def Let_def split: list.splits)

lemma slot_SomeD:
  "slot files k d e = Some f \<Longrightarrow> f \<in> set files \<and> taskId f = k \<and> inout f = d \<and> ext f = e"
proof -
  assume a: "slot files k d e = Some f"
  let ?xs = "filter (\<lambda>f. taskId f = k \<and> inout f = d \<and> ext f = e) files"
  from a have "?xs \<noteq> []" "f = last ?xs"
    by (auto simp: slot_cases Let_def split: if_splits)
  then have "f \<in> set ?xs" using last_in_set by blast
  then show ?thesis by simp
qed

lemma slot_None_iff:
  "slot files k d e = None \<longleftrightarrow> \<not> (\<exists>f \<in> set files. taskId f = k \<and> inout f = d \<and> ext f = e)"
  by (auto simp: slot_cases Let_def filter_empty_conv)

lemma lookup3_add_own:
  "lookup3 (add_own tasks f) k d e =
     (if taskId f \<notin> set object_prototype_names \<and> k = taskId f \<and> d = inout f \<and> e = ext f
      then Some f else lookup3 tasks k d e)"
  by (auto simp: lookup3_def add_own_def Let_def update_conv' split: option.splits)

lemma lookup3_own_groups:
  "lookup3 (own_groups files) k d e =
     (if k \<in> set object_prototype_names then None else slot files k d e)"
  unfolding own_groups_def
proof (induction files rule: rev_induct)
  case Nil
  then show ?case by (simp add: lookup3_def slot_Nil)
next
  case (snoc f files)
  then show ?case by (auto simp: lookup3_add_own slot_snoc)
qed

lemma update_nonempty: "AList.update k v al \<noteq> []"
  by (cases al) auto

lemma keys_update: "fst ` set (AList.update k v al) = insert k (fst ` set al)"
  by (induction al) auto

lemma inv_add_own: "inv_tasks tasks \<Longrightarrow> inv_tasks (add_own tasks f)"
proof -
  assume i: "inv_tasks tasks"
  then have d: "distinct (map fst (add_own tasks f))"
    by (simp add: inv_tasks_def add_own_def Let_def distinct_update)
  from i have k: "\<forall>k \<in> fst ` set (add_own tasks f). k \<notin> set object_prototype_names"
    unfolding inv_tasks_def add_own_def Let_def
    by (simp only: keys_update split: if_splits) auto
  from i have n: "\<And>k g d s. map_of tasks k = Some g \<Longrightarrow> map_of g d = Some s \<Longrightarrow> s \<noteq> []"
    unfolding inv_tasks_def by blast
  have "s \<noteq> []" if "map_of (add_own tasks f) k = Some g" "map_of g d = Some s" for k g d s
    using that n
    by (auto simp: add_own_def Let_def update_conv' update_nonempty
        simp del: map_of_eq_Some_iff split: option.splits if_splits) blast+
  with d k show ?thesis unfolding inv_tasks_def by blast
qed

lemma inv_foldl_gen: "inv_tasks tasks \<Longrightarrow> inv_tasks (foldl add_own tasks files)"
  by (induction files arbitrary: tasks) (auto simp: inv_add_own)

lemma inv_Nil: "inv_tasks []"
  by (simp add: inv_tasks_def)

lemma inv_own_groups: "inv_tasks (own_groups files)"
  unfolding own_groups_def by (rule inv_foldl_gen) (rule inv_Nil)

lemma mset_object_values: "mset (object_values props) = mset (map snd props)"
proof -
  let ?P = "\<lambda>p::string \<times> 'a. is_array_index (fst p)"
  have "mset (object_values props) =
        image_mset snd (filter_mset ?P (mset props)) +
        image_mset snd (filter_mset (\<lambda>p. \<not> ?P p) (mset props))"
    by (simp add: object_values_def)
  also have "\<dots> = image_mset snd (filter_mset ?P (mset props) + filter_mset (\<lambda>p. \<not> ?P p) (mset props))"
    by (simp only: image_mset_union)
  also have "\<dots> = image_mset snd (mset props)"
    by (simp only: multiset_partition[symmetric])
  finally show ?thesis by simp
qed

lemma set_map_filter': "set (List.map_filter h xs) = {y. \<exists>x \<in> set xs. h x = Some y}"
  by (auto simp: map_filter_def) force

lemma set_own_tasks:
  "set (own_tasks files) =
     {t. \<exists>g \<in> snd ` set (own_groups files). assemble fresh_prototype g = Some t}"
proof -
  have "set (object_values (own_groups files)) = snd ` set (own_groups files)"
    using mset_object_values[of "own_groups files"] by (metis set_map set_mset_mset)
  then show ?thesis
    by (simp add: own_tasks_def set_map_filter')
qed

lemma mset_map_filter: "mset (List.map_filter h xs) = image_mset (the \<circ> h) (filter_mset (\<lambda>x. h x \<noteq> None) (mset xs))"
  by (simp add: map_filter_def)

lemma mset_own_tasks:
  "mset (own_tasks files) =
     mset (List.map_filter (assemble fresh_prototype) (map snd (own_groups files)))"
  unfolding own_tasks_def by (simp only: mset_map_filter mset_object_values)

lemma resolve_fresh: "resolve fresh_prototype g d = map_of g d"
  by (cases d) (simp_all add: resolve_def inherited_def fresh_prototype_def split: option.splits)

text \<open>A task built from the group under key \<open>k\<close> carries the id \<open>k\<close>.\<close>

lemma assemble_id:
  assumes "map_of (own_groups files) k = Some g" and "assemble fresh_prototype g = Some t"
  shows "task_id t = k \<and> (\<exists>sg. slot files k In Sig = Some sg \<and> task_date t = date sg) \<and>
         slot files k In Dat \<noteq> None \<and> k \<notin> set object_prototype_names \<and>
         task_out t = map_of g Out"
proof -
  from assms(2) obtain s sg dt where s: "map_of g In = Some s" "map_of s Sig = Some sg"
      "map_of s Dat = Some dt"
      and t: "t = \<lparr>task_in = Some s, task_out = map_of g Out, task_date = date sg, task_id = taskId sg\<rparr>"
    by (auto simp: assemble_def resolve_fresh split: option.splits)
  have l: "lookup3 (own_groups files) k In Sig = Some sg"
      "lookup3 (own_groups files) k In Dat = Some dt"
    using assms(1) s by (simp_all add: lookup3_def)
  then have k: "k \<notin> set object_prototype_names"
    by (auto simp: lookup3_own_groups split: if_splits)
  with l have "slot files k In Sig = Some sg" "slot files k In Dat = Some dt"
    by (simp_all add: lookup3_own_groups)
  with k t slot_SomeD[of files k In Sig sg] show ?thesis by simp
qed

lemma filter_id_map_filter:
  assumes "distinct (map fst T)"
    and "\<And>k' g t. (k', g) \<in> set T \<Longrightarrow> h g = Some t \<Longrightarrow> task_id t = k'"
  shows "filter (\<lambda>t. task_id t = k) (List.map_filter h (map snd T)) =
     (case map_of T k of None \<Rightarrow> [] | Some g \<Rightarrow> (case h g of None \<Rightarrow> [] | Some t \<Rightarrow> [t]))"
  using assms
proof (induction T)
  case Nil
  then show ?case by (simp add: map_filter_simps)
next
  case (Cons p T)
  obtain k' g where p: "p = (k', g)" by (cases p)
  have ih: "filter (\<lambda>t. task_id t = k) (List.map_filter h (map snd T)) =
     (case map_of T k of None \<Rightarrow> [] | Some g \<Rightarrow> (case h g of None \<Rightarrow> [] | Some t \<Rightarrow> [t]))"
    using Cons by auto
  have nk: "map_of T k' = None" using Cons.prems(1) p
    by (simp add: map_of_eq_None_iff)
  have hid: "\<And>t. h g = Some t \<Longrightarrow> task_id t = k'" using Cons.prems(2) p by auto
  show ?case
  proof (cases "k = k'")
    case True
    then show ?thesis using ih nk hid p
      by (auto simp: map_filter_simps split: option.splits)
  next
    case False
    then show ?thesis using ih hid p
      by (auto simp: map_filter_simps split: option.splits)
  qed
qed

lemma mset_eq_short: "mset xs = mset r \<Longrightarrow> length r \<le> 1 \<Longrightarrow> xs = r"
  by (cases r) auto

lemma filter_id_own_tasks:
  "mset (filter (\<lambda>t. task_id t = k) (own_tasks files)) =
     mset (case map_of (own_groups files) k of
        None \<Rightarrow> []
      | Some g \<Rightarrow> (case assemble fresh_prototype g of None \<Rightarrow> [] | Some t \<Rightarrow> [t]))"
proof -
  let ?T = "own_groups files"
  let ?r = "case map_of ?T k of None \<Rightarrow> [] | Some g \<Rightarrow> (case assemble fresh_prototype g of None \<Rightarrow> [] | Some t \<Rightarrow> [t])"
  have d: "distinct (map fst ?T)" using inv_own_groups[of files] by (simp add: inv_tasks_def)
  have "filter (\<lambda>t. task_id t = k) (List.map_filter (assemble fresh_prototype) (map snd ?T)) = ?r"
  proof (rule filter_id_map_filter[OF d])
    fix k' g t assume "(k', g) \<in> set ?T" "assemble fresh_prototype g = Some t"
    then show "task_id t = k'" using assemble_id[of files k' g t] d by simp
  qed
  then have "mset (filter (\<lambda>t. task_id t = k) (List.map_filter (assemble fresh_prototype) (map snd ?T))) = mset ?r"
    by simp
  then show ?thesis
    by (simp only: mset_filter mset_own_tasks)
qed

lemma filter_id_perm:
  assumes "mset ts = mset (own_tasks files)"
  shows "filter (\<lambda>t. task_id t = k) ts =
     (case map_of (own_groups files) k of
        None \<Rightarrow> []
      | Some g \<Rightarrow> (case assemble fresh_prototype g of None \<Rightarrow> [] | Some t \<Rightarrow> [t]))"
proof -
  let ?r = "case map_of (own_groups files) k of None \<Rightarrow> [] | Some g \<Rightarrow> (case assemble fresh_prototype g of None \<Rightarrow> [] | Some t \<Rightarrow> [t])"
  have "mset (filter (\<lambda>t. task_id t = k) ts) = mset (filter (\<lambda>t. task_id t = k) (own_tasks files))"
    using assms by (simp only: mset_filter)
  then have m: "mset (filter (\<lambda>t. task_id t = k) ts) = mset ?r"
    by (simp only: filter_id_own_tasks)
  have "length ?r \<le> 1" by (simp split: option.splits)
  with m show ?thesis by (rule mset_eq_short)
qed

lemma own_tasks_memberD:
  assumes "t \<in> set (own_tasks files)"
  shows "\<exists>g. map_of (own_groups files) (task_id t) = Some g \<and> assemble fresh_prototype g = Some t"
proof -
  let ?T = "own_groups files"
  have d: "distinct (map fst ?T)" using inv_own_groups[of files] by (simp add: inv_tasks_def)
  from assms obtain k g where kg: "(k, g) \<in> set ?T" "assemble fresh_prototype g = Some t"
    by (auto simp: set_own_tasks)
  then have m: "map_of ?T k = Some g" using d by simp
  then have "task_id t = k" using assemble_id[OF m kg(2)] by simp
  with m kg(2) show ?thesis by blast
qed


text \<open>Which tasks come out of a listing that leaves the prototype alone.\<close>

lemma lookup_group:
  assumes "k \<notin> set object_prototype_names" and "slot files k d e = Some f"
  shows "\<exists>g s. map_of (own_groups files) k = Some g \<and> map_of g d = Some s \<and> map_of s e = Some f"
proof -
  have "lookup3 (own_groups files) k d e = Some f"
    using assms by (simp add: lookup3_own_groups)
  then show ?thesis by (auto simp: lookup3_def split: option.splits)
qed

lemma tasks_complete:
  assumes m: "mset ts = mset (own_tasks files)"
    and k: "k \<notin> set object_prototype_names"
    and sg: "slot files k In Sig = Some sg" and dt: "slot files k In Dat \<noteq> None"
  shows "\<exists>t. filter (\<lambda>t. task_id t = k) ts = [t] \<and> task_id t = k \<and>
             task_date t = date sg \<and> taskId sg = k"
proof -
  from dt obtain fd where fd: "slot files k In Dat = Some fd" by auto
  from lookup_group[OF k sg] obtain g s where
    g: "map_of (own_groups files) k = Some g" "map_of g In = Some s" "map_of s Sig = Some sg"
    by blast
  from lookup_group[OF k fd] g have "map_of s Dat = Some fd" by auto
  with g have a: "assemble fresh_prototype g = Some \<lparr>task_in = Some s, task_out = map_of g Out,
       task_date = date sg, task_id = taskId sg\<rparr>"
    by (simp add: assemble_def resolve_fresh)
  have "taskId sg = k" using slot_SomeD[OF sg] by simp
  with g(1) a show ?thesis by (simp add: filter_id_perm[OF m])
qed

lemma tasks_incomplete:
  assumes m: "mset ts = mset (own_tasks files)"
    and "slot files k In Sig = None \<or> slot files k In Dat = None \<or> k \<in> set object_prototype_names"
  shows "filter (\<lambda>t. task_id t = k) ts = []"
proof (rule ccontr)
  assume "filter (\<lambda>t. task_id t = k) ts \<noteq> []"
  then obtain g t where g: "map_of (own_groups files) k = Some g" "assemble fresh_prototype g = Some t"
    by (auto simp: filter_id_perm[OF m] split: option.splits)
  from assemble_id[OF g] assms(2) show False by auto
qed

text \<open>
  In a process whose \<^verbatim>\<open>Object.prototype\<close> has neither \<^verbatim>\<open>in\<close> nor \<^verbatim>\<open>out\<close>, on a listing
  without the id \<^verbatim>\<open>__proto__\<close>, the loop of \<^verbatim>\<open>toTasks\<close> builds \<open>own_groups\<close> and leaves the
  prototype as it was.
\<close>


lemma inherited_unpolluted: "unpolluted P \<Longrightarrow> inherited P d = None"
  by (cases d) (simp_all add: unpolluted_def inherited_def)

lemma inherits_unpolluted: "unpolluted P \<Longrightarrow> inherits P k \<longleftrightarrow> k \<in> set object_prototype_names"
  by (simp add: unpolluted_def inherits_def)


lemma add_file_unpolluted:
  assumes u: "unpolluted P" and n: "taskId f \<noteq> ''__proto__''"
    and k: "\<forall>k \<in> fst ` set tasks. k \<notin> set object_prototype_names"
  shows "\<exists>P'. add_file (tasks, P) f = Some (add_own tasks f, P') \<and> unpolluted P'"
proof (cases "map_of tasks (taskId f)")
  case None
  show ?thesis
  proof (cases "taskId f \<in> set object_prototype_names")
    case True
    have "unpolluted (P\<lparr>fn_own := fn_own P @ [(taskId f, inout f)]\<rparr>)"
      using u by (simp add: unpolluted_def)
    then show ?thesis
      using None True n u
      by (auto simp: add_file_def add_own_def inherited_unpolluted)
  next
    case False
    then show ?thesis
      using None u n
      by (auto simp: add_file_def add_own_def add_to_group_def inherited_unpolluted
          inherits_unpolluted Let_def split: option.splits)
  qed
next
  case (Some g)
  then have "taskId f \<in> fst ` set tasks" by (metis map_of_eq_None_iff option.distinct(1))
  with k have "taskId f \<notin> set object_prototype_names" by blast
  then show ?thesis
    using Some u
    by (auto simp: add_file_def add_own_def add_to_group_def inherited_unpolluted Let_def
        split: option.splits)
qed

lemma add_files_unpolluted:
  assumes "unpolluted P" and "prototype_untouched files" and "inv_tasks tasks"
  shows "\<exists>P'. add_files (tasks, P) files = Some (foldl add_own tasks files, P') \<and> unpolluted P'"
  using assms
proof (induction files arbitrary: tasks P)
  case Nil
  then show ?case by simp
next
  case (Cons f files)
  from Cons.prems have n: "taskId f \<noteq> ''__proto__''" and r: "prototype_untouched files"
    by (simp_all add: prototype_untouched_def)
  from Cons.prems(3) have k: "\<forall>k \<in> fst ` set tasks. k \<notin> set object_prototype_names"
    by (simp add: inv_tasks_def)
  from add_file_unpolluted[OF Cons.prems(1) n k] obtain P1 where
    1: "add_file (tasks, P) f = Some (add_own tasks f, P1)" "unpolluted P1" by blast
  from Cons.IH[OF 1(2) r inv_add_own[OF Cons.prems(3)]] obtain P' where
    "add_files (add_own tasks f, P1) files = Some (foldl add_own (add_own tasks f) files, P')"
    "unpolluted P'" by blast
  with 1 show ?case by auto
qed

lemma resolve_unpolluted: "unpolluted P \<Longrightarrow> resolve P g d = map_of g d"
  by (simp add: resolve_def inherited_unpolluted split: option.splits)

lemma assemble_unpolluted: "unpolluted P \<Longrightarrow> assemble P g = assemble fresh_prototype g"
  by (simp add: assemble_def resolve_unpolluted resolve_fresh split: option.splits)

lemma toTasks_unpolluted:
  assumes "unpolluted P" and "prototype_untouched files"
  shows "\<exists>P'. unpolluted P' \<and>
     toTasks P files =
       (case js_sort (own_tasks files) of None \<Rightarrow> None | Some ts \<Rightarrow> Some (ts, P'))"
proof -
  from add_files_unpolluted[OF assms inv_Nil] obtain P' where
    a: "add_files ([], P) files = Some (own_groups files, P')" and u: "unpolluted P'"
    by (auto simp: own_groups_def)
  have "(\<lambda>g. assemble P' g) = assemble fresh_prototype"
    using assemble_unpolluted[OF u] by auto
  then have "toTasks P files =
       (case js_sort (own_tasks files) of None \<Rightarrow> None | Some ts \<Rightarrow> Some (ts, P'))"
    by (simp add: toTasks_def a own_tasks_def)
  with u show ?thesis by blast
qed

text \<open>The sort returns a permutation of its input, sorted when the dates it returns
  are valid.\<close>

lemma mset_binary_insert: "mset (binary_insert xs p) = add_mset p (mset xs)"
proof -
  have "mset (take i xs) + mset (drop i xs) = mset xs" for i
    by (metis append_take_drop_id mset_append)
  then show ?thesis by (simp add: binary_insert_def Let_def)
qed

lemma mset_foldl_binary_insert: "mset (foldl binary_insert run rest) = mset run + mset rest"
  by (induction rest arbitrary: run) (simp_all add: mset_binary_insert)

lemma mset_count_and_make_run:
  "count_and_make_run xs = (run, rest) \<Longrightarrow> mset run + mset rest = mset xs"
proof -
  assume a: "count_and_make_run xs = (run, rest)"
  have t: "mset (take n xs) + mset (drop n xs) = mset xs" for n
    by (metis append_take_drop_id mset_append)
  show ?thesis
  proof (cases xs)
    case Nil
    with a show ?thesis by (simp add: count_and_make_run_def)
  next
    case (Cons x0 ys)
    show ?thesis
    proof (cases ys)
      case Nil
      with a Cons show ?thesis by (simp add: count_and_make_run_def)
    next
      case (Cons x1 zs)
      define n where "n = 2 + run_length (compare_tasks x1 x0 < 0) x1 zs"
      have "count_and_make_run xs =
          (if compare_tasks x1 x0 < 0 then rev (take n xs) else take n xs, drop n xs)"
        unfolding count_and_make_run_def n_def \<open>xs = x0 # ys\<close> Cons
        by (simp only: list.case Let_def)
      with a have "(run = rev (take n xs) \<or> run = take n xs) \<and> rest = drop n xs"
        by (auto split: if_splits)
      then show ?thesis using t[of n] by auto
    qed
  qed
qed

lemma mset_v8_short_sort: "mset (v8_short_sort xs) = mset xs"
  by (auto simp: v8_short_sort_def mset_foldl_binary_insert mset_count_and_make_run
      split: prod.splits)

lemma js_sort_mset: "js_sort xs = Some ts \<Longrightarrow> mset ts = mset xs"
  by (auto simp: js_sort_def mset_v8_short_sort split: if_splits)



lemma toTasks_clean:
  assumes "unpolluted P" and "prototype_untouched files" and "toTasks P files = Some (ts, P')"
  shows "mset ts = mset (own_tasks files)" and "unpolluted P'"
proof -
  from toTasks_unpolluted[OF assms(1,2)] obtain P1 where
    u: "unpolluted P1" and
    t: "toTasks P files = (case js_sort (own_tasks files) of None \<Rightarrow> None | Some ts \<Rightarrow> Some (ts, P1))"
    by blast
  from t assms(3) have "js_sort (own_tasks files) = Some ts" "P' = P1"
    by (auto split: option.splits)
  then show "mset ts = mset (own_tasks files)" "unpolluted P'"
    using u js_sort_mset by auto
qed


lemma task_out_lookup:
  assumes "mset ts = mset (own_tasks files)" and "t \<in> set ts"
  shows "(case task_out t of None \<Rightarrow> None | Some s \<Rightarrow> map_of s e) = slot files (task_id t) Out e"
    and "task_out t \<noteq> Some []"
proof -
  let ?T = "own_groups files"
  have "set ts = set (own_tasks files)" using assms(1) by (rule mset_eq_setD)
  with assms(2) have "t \<in> set (own_tasks files)" by simp
  from own_tasks_memberD[OF this] obtain g where
    g: "map_of ?T (task_id t) = Some g" "assemble fresh_prototype g = Some t" by blast
  from assemble_id[OF g] have o: "task_out t = map_of g Out"
    and k: "task_id t \<notin> set object_prototype_names" by simp_all
  have "lookup3 ?T (task_id t) Out e = (case task_out t of None \<Rightarrow> None | Some s \<Rightarrow> map_of s e)"
    using g(1) o by (simp add: lookup3_def)
  then show "(case task_out t of None \<Rightarrow> None | Some s \<Rightarrow> map_of s e) = slot files (task_id t) Out e"
    using k by (simp add: lookup3_own_groups)
  show "task_out t \<noteq> Some []"
    using inv_own_groups[of files] g(1) o unfolding inv_tasks_def by metis
qed

lemma task_out_None_iff:
  assumes "mset ts = mset (own_tasks files)" and "t \<in> set ts"
  shows "task_out t = None \<longleftrightarrow> \<not> (\<exists>f \<in> set files. taskId f = task_id t \<and> inout f = Out)"
proof
  assume n: "task_out t = None"
  have "slot files (task_id t) Out e = None" for e
    using task_out_lookup(1)[OF assms, of e] n by simp
  then show "\<not> (\<exists>f \<in> set files. taskId f = task_id t \<and> inout f = Out)"
    by (auto simp: slot_None_iff)
next
  assume a: "\<not> (\<exists>f \<in> set files. taskId f = task_id t \<and> inout f = Out)"
  show "task_out t = None"
  proof (cases "task_out t")
    case None
    then show ?thesis .
  next
    case (Some s)
    with task_out_lookup(2)[OF assms] obtain e f s' where "s = (e, f) # s'" by (cases s) auto
    then have "map_of s e = Some f" by simp
    with Some have "slot files (task_id t) Out e = Some f"
      using task_out_lookup(1)[OF assms, of e] by simp
    with a slot_SomeD show ?thesis by blast
  qed
qed



text \<open>
  In a process with a clean \<^verbatim>\<open>Object.prototype\<close>, on a listing without the id
  \<^verbatim>\<open>__proto__\<close> and for a task id that is not a property name inherited from
  \<^verbatim>\<open>Object.prototype\<close>, the assembler behaves as a dictionary keyed by task id would: a
  group without \<^verbatim>\<open>in.sig\<close> (or without \<^verbatim>\<open>in.dat\<close>) yields no task, a group with both yields
  exactly one, whose date and id are those of the last listed \<^verbatim>\<open>in.sig\<close> object.
\<close>

lemma assembler_completeness:
  assumes "unpolluted P" and "prototype_untouched files" and "toTasks P files = Some (ts, P')"
  shows "(slot files k In Sig = None \<longrightarrow> filter (\<lambda>t. task_id t = k) ts = []) \<and>
         (k \<notin> set object_prototype_names \<and> slot files k In Sig = Some sg \<and>
          slot files k In Dat \<noteq> None \<longrightarrow>
            (\<exists>t. filter (\<lambda>t. task_id t = k) ts = [t] \<and>
                 task_date t = date sg \<and> task_id t = taskId sg))"
proof -
  note m = toTasks_clean(1)[OF assms]
  have 1: "filter (\<lambda>t. task_id t = k) ts = []" if "slot files k In Sig = None"
    using that by (intro tasks_incomplete[OF m]) simp
  have 2: "\<exists>t. filter (\<lambda>t. task_id t = k) ts = [t] \<and>
                 task_date t = date sg \<and> task_id t = taskId sg"
    if "k \<notin> set object_prototype_names" "slot files k In Sig = Some sg" "slot files k In Dat \<noteq> None"
    using tasks_complete[OF m that] by auto
  from 1 2 show ?thesis by blast
qed

text \<open>
  Claim C4 at the listing \<^verbatim>\<open>1-constructor.in.dat\<close>, \<^verbatim>\<open>1-constructor.in.sig\<close>, in a fresh
  process: both names decode, the group has both input objects, and the assembler
  returns no task. The read \<^verbatim>\<open>tasks['constructor']\<close> finds the inherited \<^verbatim>\<open>Object\<close>
  function, so the group is never stored in \<^verbatim>\<open>tasks\<close>; the files end up in a property
  \<^verbatim>\<open>in\<close> of that function.
\<close>

theorem assembler_drops_inherited_id:
  "convertUrls [''1-constructor.in.dat'', ''1-constructor.in.sig''] =
     [\<lparr>date = Date 1, taskId = ''constructor'', inout = In, ext = Dat,
        url = ''1-constructor.in.dat''\<rparr>,
      \<lparr>date = Date 1, taskId = ''constructor'', inout = In, ext = Sig,
        url = ''1-constructor.in.sig''\<rparr>] \<and>
   toTasks fresh_prototype (convertUrls [''1-constructor.in.dat'', ''1-constructor.in.sig'']) =
     Some ([], \<lparr>proto_in = None, proto_out = None, fn_own = [(''constructor'', In)]\<rparr>)"
  by code_simp





text \<open>
  In a process with a clean \<^verbatim>\<open>Object.prototype\<close>, on a listing without the id
  \<^verbatim>\<open>__proto__\<close>, the task the server selects has no \<^verbatim>\<open>out\<close> property and the listing
  holds no output object of any kind for its id; and a task with any output object,
  also a lone \<^verbatim>\<open>out.sig\<close>, \<^verbatim>\<open>out.dat\<close> or \<^verbatim>\<open>out.err\<close>, is not in the pending set.
\<close>

lemma pending_without_output:
  assumes u: "unpolluted P" and p: "prototype_untouched files"
    and r: "toTasks P files = Some (ts, P')"
  shows "(next_task P files = Some (Some t, Q) \<longrightarrow>
            t \<in> set ts \<and> task_out t = None \<and>
            \<not> (\<exists>f \<in> set files. taskId f = task_id t \<and> inout f = Out)) \<and>
         (f \<in> set files \<and> inout f = Out \<longrightarrow>
            (\<forall>t \<in> set (pending ts). task_id t \<noteq> taskId f))"
proof -
  note m = toTasks_clean(1)[OF u p r]
  have c1: "t \<in> set ts \<and> task_out t = None \<and>
            \<not> (\<exists>f \<in> set files. taskId f = task_id t \<and> inout f = Out)"
    if n: "next_task P files = Some (Some t, Q)"
  proof -
    from n r obtain rest where "pending ts = t # rest"
      by (auto simp: next_task_def split: list.splits)
    then have "t \<in> set (pending ts)" by simp
    then have "t \<in> set ts" "task_out t = None" by (simp_all add: pending_def)
    then show ?thesis using task_out_None_iff[OF m, of t] by blast
  qed
  have c2: "\<forall>t \<in> set (pending ts). task_id t \<noteq> taskId f"
    if f: "f \<in> set files \<and> inout f = Out"
  proof
    fix t assume "t \<in> set (pending ts)"
    then have "t \<in> set ts" "task_out t = None" by (simp_all add: pending_def)
    then show "task_id t \<noteq> taskId f" using task_out_None_iff[OF m, of t] f by metis
  qed
  from c1 c2 show ?thesis by blast
qed

text \<open>
  Claim C10 at the listing \<^verbatim>\<open>1-__proto__.in.dat\<close>, \<^verbatim>\<open>1-__proto__.in.sig\<close>, \<^verbatim>\<open>3-b.out.dat\<close>,
  \<^verbatim>\<open>4-c.in.dat\<close>, \<^verbatim>\<open>3-b.in.sig\<close>, in a fresh process. The two objects under \<^verbatim>\<open>__proto__\<close>
  create \<^verbatim>\<open>Object.prototype.in\<close>; the group of \<open>b\<close> gets an own \<^verbatim>\<open>out\<close>, the group of \<open>c\<close>
  gets no own property, and \<^verbatim>\<open>4-c.in.dat\<close> and \<^verbatim>\<open>3-b.in.sig\<close> are stored in the shared
  \<^verbatim>\<open>in\<close> object. Both groups pass the filter of the assembler and take date and id from the
  shared \<^verbatim>\<open>in.sig\<close>. The task built from the group of \<open>c\<close> has no \<^verbatim>\<open>out\<close>, so the server
  selects it: a task with the id \<open>b\<close>, although the listing holds \<^verbatim>\<open>3-b.out.dat\<close>. The
  server passes it to \<^verbatim>\<open>runTask\<close>, which checks the signature of \<open>b\<close> against the data of
  \<open>c\<close> and publishes a second result for \<open>b\<close>: \<^verbatim>\<open>3-b.out.err\<close> and \<^verbatim>\<open>3-b.out.sig\<close>, next to
  \<^verbatim>\<open>3-b.out.dat\<close>.
\<close>

theorem server_selects_task_with_output:
  "\<lparr>date = Date 3, taskId = ''b'', inout = Out, ext = Dat, url = ''3-b.out.dat''\<rparr>
     \<in> set example_polluting \<and>
   map_option (map_option task_id \<circ> fst) (next_task fresh_prototype example_polluting) =
     Some (Some ''b'') \<and>
   convertUrls (map fst (store example_polluting_state)) = example_polluting \<and>
   map_option store
     (server_iteration {} example_env example_config ''pub-client'' ''priv-server'' 100
        example_polluting_state) =
     Some [(''1-__proto__.in.dat'', ''mallory''), (''1-__proto__.in.sig'', ''x''),
           (''3-b.out.dat'', ''Hello, bob!''), (''4-c.in.dat'', ''carol''),
           (''3-b.in.sig'', ''client:bob''), (''3-b.out.err'', ''Bad signature''),
           (''3-b.out.sig'', ''server:Bad signature'')]"
  by code_simp


section \<open>Properties of the server\<close>

lemma rev_out_name: "rev (getTaskFileUrl d k Out e) ! 4 = CHR ''t''"
  by (cases e) (simp_all add: getTaskFileUrl_def inout_str_def ext_str_def)

lemma rev_in_name: "rev (x @ ''.in.dat'') ! 4 = CHR ''n''" "rev (x @ ''.in.sig'') ! 4 = CHR ''n''"
  by simp_all

lemma getTaskFileUrl_out_neq_in:
  "getTaskFileUrl d k Out e \<noteq> x @ ''.in.dat''" "getTaskFileUrl d k Out e \<noteq> x @ ''.in.sig''"
proof -
  show "getTaskFileUrl d k Out e \<noteq> x @ ''.in.dat''"
  proof
    assume "getTaskFileUrl d k Out e = x @ ''.in.dat''"
    then have "rev (getTaskFileUrl d k Out e) ! 4 = rev (x @ ''.in.dat'') ! 4" by (rule arg_cong)
    then show False by (simp only: rev_out_name rev_in_name) simp
  qed
  show "getTaskFileUrl d k Out e \<noteq> x @ ''.in.sig''"
  proof
    assume "getTaskFileUrl d k Out e = x @ ''.in.sig''"
    then have "rev (getTaskFileUrl d k Out e) ! 4 = rev (x @ ''.in.sig'') ! 4" by (rule arg_cong)
    then show False by (simp only: rev_out_name rev_in_name) simp
  qed
qed

lemma in_dat_neq_in_sig: "x @ ''.in.dat'' \<noteq> y @ ''.in.sig''"
proof
  assume "x @ ''.in.dat'' = y @ ''.in.sig''"
  then have "rev (x @ ''.in.dat'') ! 0 = rev (y @ ''.in.sig'') ! 0" by (rule arg_cong)
  then show False by simp
qed

lemma fetched_simps:
  "store (fetched st ud input us sg) = store st"
  "retries (fetched st ud input us sg) = retries st"
  "proto (fetched st ud input us sg) = proto st"
  "ud \<noteq> us \<Longrightarrow> map_of (tmp (fetched st ud input us sg)) ud = Some input"
  "p \<noteq> ud \<Longrightarrow> map_of (tmp st) p = None \<Longrightarrow> map_of (tmp (fetched st ud input us sg)) p = None"
  by (simp_all add: fetched_def delete_conv' update_conv')

lemma runTask_fetch:
  assumes d: "task_date t = Date T"
    and fd: "task_file (task_in t) Dat = Some fdat" and fs: "task_file (task_in t) Sig = Some fsig"
    and ne: "url fdat \<noteq> url fsig"
    and sd: "map_of (store st) (url fdat) = Some input" and ss: "map_of (store st) (url fsig) = Some sg"
  shows "runTask ev cfg t cpk spk st =
     (if verify ev input sg cpk
      then (case run_command ev t (url fdat) (replace_first ''.in.dat'' ''.out.dat'' (url fdat))
                   input spk (fetched st (url fdat) input (url fsig) sg) of
               (None, st4) \<Rightarrow> (None, st4)
             | (Some e, st4) \<Rightarrow> handle_failure ev cfg t (url fdat) e spk st4)
      else (case unlinkSync (fetched st (url fdat) input (url fsig) sg) (url fdat) of
               Inl e \<Rightarrow> (Some e, fetched st (url fdat) input (url fsig) sg)
             | Inr st4 \<Rightarrow> uploadTaskResult ev t None ''Bad signature'' spk st4))"
proof -
  let ?st1 = "st\<lparr>tmp := AList.update (url fdat) input (tmp st)\<rparr>"
  let ?st2 = "?st1\<lparr>tmp := AList.update (url fsig) sg (tmp ?st1)\<rparr>"
  let ?st3 = "?st2\<lparr>tmp := AList.delete (url fsig) (tmp ?st2)\<rparr>"
  have 1: "downloadFile st (url fdat) = Inr (url fdat, ?st1)"
    using sd by (simp add: downloadFile_def)
  have 2: "downloadFile ?st1 (url fsig) = Inr (url fsig, ?st2)"
    using ss by (simp add: downloadFile_def)
  have 3: "readFileSync ?st2 (url fsig) = Inr sg"
    by (simp add: readFileSync_def update_conv')
  have 4: "unlinkSync ?st2 (url fsig) = Inr ?st3"
    by (simp add: unlinkSync_def update_conv')
  have 5: "readFileSync ?st3 (url fdat) = Inr input"
    using ne by (simp add: readFileSync_def update_conv' delete_conv')
  have 6: "?st3 = fetched st (url fdat) input (url fsig) sg"
    by (simp add: fetched_def)
  have "runTask ev cfg t cpk spk st =
     (if verify ev input sg cpk
      then (case run_command ev t (url fdat) (replace_first ''.in.dat'' ''.out.dat'' (url fdat))
                   input spk ?st3 of
               (None, st4) \<Rightarrow> (None, st4)
             | (Some e, st4) \<Rightarrow> handle_failure ev cfg t (url fdat) e spk st4)
      else (case unlinkSync ?st3 (url fdat) of
               Inl e \<Rightarrow> (Some e, ?st3)
             | Inr st4 \<Rightarrow> uploadTaskResult ev t None ''Bad signature'' spk st4))"
    unfolding runTask_def
    by (simp only: d fd fs 1 2 3 4 5 jsdate.distinct if_False option.case sum.case prod.case Let_def)
  then show ?thesis by (simp only: 6)
qed

lemma uploadTaskResult_error:
  "uploadTaskResult ev t None msg spk st =
     (None, st\<lparr>store :=
        AList.update (getTaskFileUrl (task_date t) (task_id t) Out Sig) (sign ev msg spk)
          (AList.update (getTaskFileUrl (task_date t) (task_id t) Out Err) msg (store st))\<rparr>)"
  by (simp add: uploadTaskResult_def upload_def Let_def)

lemma unlink_fetched:
  assumes "ud \<noteq> us"
  shows "unlinkSync (fetched st ud input us sg) ud =
     Inr ((fetched st ud input us sg)\<lparr>tmp := AList.delete ud (tmp (fetched st ud input us sg))\<rparr>)"
  using assms by (simp add: unlinkSync_def fetched_simps)

lemma runTask_bad_signature:
  assumes d: "task_date t = Date T"
    and fd: "task_file (task_in t) Dat = Some fdat" and fs: "task_file (task_in t) Sig = Some fsig"
    and ne: "url fdat \<noteq> url fsig"
    and sd: "map_of (store st) (url fdat) = Some input" and ss: "map_of (store st) (url fsig) = Some sg"
    and bad: "\<not> verify ev input sg cpk"
  shows "runTask ev cfg t cpk spk st =
     (None, st\<lparr>store :=
          AList.update (getTaskFileUrl (task_date t) (task_id t) Out Sig)
            (sign ev ''Bad signature'' spk)
            (AList.update (getTaskFileUrl (task_date t) (task_id t) Out Err) ''Bad signature''
               (store st)),
        tmp := AList.delete (url fdat) (tmp (fetched st (url fdat) input (url fsig) sg))\<rparr>)"
  by (simp add: runTask_fetch[OF d fd fs ne sd ss] bad unlink_fetched[OF ne]
      uploadTaskResult_error fetched_simps)



lemma replace_first_length:
  "length (replace_first pat rep (x @ pat)) = length x + length rep"
proof (induction x)
  case Nil
  then show ?case by (cases pat) simp_all
next
  case (Cons c cs)
  then show ?case by simp
qed

lemma out_file_neq_in_file:
  "replace_first ''.in.dat'' ''.out.dat'' (x @ ''.in.dat'') \<noteq> x @ ''.in.dat''"
proof
  assume "replace_first ''.in.dat'' ''.out.dat'' (x @ ''.in.dat'') = x @ ''.in.dat''"
  then have "length (replace_first ''.in.dat'' ''.out.dat'' (x @ ''.in.dat'')) =
      length (x @ ''.in.dat'')" by (rule arg_cong)
  then show False by (simp only: replace_first_length) simp
qed

lemma run_command_failed:
  assumes "execSync ev inFile input = Failed msg out"
  shows "run_command ev t inFile outFile input spk st =
     (Some (CommandFailed msg),
      case out of None \<Rightarrow> st | Some b \<Rightarrow> st\<lparr>tmp := AList.update outFile b (tmp st)\<rparr>)"
  using assms by (simp add: run_command_def)

lemma run_command_no_output:
  assumes "execSync ev inFile input = Exited None" and "map_of (tmp st) outFile = None"
  shows "run_command ev t inFile outFile input spk st = (Some OutputNotCreated, st)"
  using assms by (simp add: run_command_def existsSync_def)

lemma not_inherits_proto: "\<not> inherits P k \<Longrightarrow> k \<noteq> ''__proto__''"
  by (auto simp: inherits_def object_prototype_names_def)

lemma handle_failure_retry:
  assumes ni: "\<not> inherits (proto st) (task_id t)"
    and c: "map_of (retries st) (task_id t) = (if k = 0 then None else Some (Count k))"
    and lt: "int k < commandRetries cfg"
  shows "handle_failure ev cfg t inFile e spk st =
     (None, st\<lparr>retries := AList.update (task_id t) (Count (k + 1)) (retries st)\<rparr>)"
  using ni c lt not_inherits_proto[OF ni] by (simp add: handle_failure_def Let_def)

lemma handle_failure_exhausted:
  assumes ni: "\<not> inherits (proto st) (task_id t)"
    and c: "map_of (retries st) (task_id t) = (if k = 0 then None else Some (Count k))"
    and ge: "int k \<ge> commandRetries cfg"
    and b: "map_of (tmp st) inFile = Some b"
  shows "handle_failure ev cfg t inFile e spk st =
     (None, st\<lparr>retries := AList.delete (task_id t) (retries st),
        tmp := AList.delete inFile (tmp st),
        store := AList.update (getTaskFileUrl (task_date t) (task_id t) Out Sig)
            (sign ev (error_text e) spk)
            (AList.update (getTaskFileUrl (task_date t) (task_id t) Out Err) (error_text e)
               (store st))\<rparr>)"
  using ni c ge b not_inherits_proto[OF ni]
  by (simp add: handle_failure_def Let_def unlinkSync_def uploadTaskResult_error
      delete_update_same)

text \<open>An inherited property of \<^verbatim>\<open>runTask.retries\<close> is never a number, so the budget is
  never found exhausted.\<close>

lemma handle_failure_inherited:
  assumes "inherits (proto st) (task_id t)"
    and "map_of (retries st) (task_id t) \<in> {None, Some NotANumber}"
  shows "fst (handle_failure ev cfg t inFile e spk st) = None"
    and "store (snd (handle_failure ev cfg t inFile e spk st)) = store st"
    and "proto (snd (handle_failure ev cfg t inFile e spk st)) = proto st"
    and "map_of (retries (snd (handle_failure ev cfg t inFile e spk st))) (task_id t)
           \<in> {None, Some NotANumber}"
  using assms by (auto simp: handle_failure_def Let_def update_conv')


text \<open>A run of \<^verbatim>\<open>runTask\<close> whose command fails: the command exits with an error, or it
  exits normally and there is no output file.\<close>

lemma runTask_command_fails:
  assumes d: "task_date t = Date T"
    and fd: "task_file (task_in t) Dat = Some fdat" and fs: "task_file (task_in t) Sig = Some fsig"
    and nd: "url fdat = x @ ''.in.dat''" and ne: "url fdat \<noteq> url fsig"
    and sd: "map_of (store st) (url fdat) = Some input" and ss: "map_of (store st) (url fsig) = Some sg"
    and ok: "verify ev input sg cpk"
    and ex: "execSync ev (url fdat) input = Failed msg out \<and> txt = msg \<or>
             execSync ev (url fdat) input = Exited None \<and>
             map_of (tmp st) (replace_first ''.in.dat'' ''.out.dat'' (url fdat)) = None \<and>
             txt = ''Error: Output file was not created''"
  shows "\<exists>w e. runTask ev cfg t cpk spk st = handle_failure ev cfg t (url fdat) e spk w \<and>
           error_text e = txt \<and>
           store w = store st \<and> retries w = retries st \<and> proto w = proto st \<and>
           map_of (tmp w) (url fdat) \<noteq> None \<and>
           (execSync ev (url fdat) input = Exited None \<longrightarrow>
              map_of (tmp w) (replace_first ''.in.dat'' ''.out.dat'' (url fdat)) = None)"
proof -
  let ?f = "fetched st (url fdat) input (url fsig) sg"
  let ?o = "replace_first ''.in.dat'' ''.out.dat'' (url fdat)"
  have on: "?o \<noteq> url fdat" unfolding nd by (rule out_file_neq_in_file)
  have fi: "map_of (tmp ?f) (url fdat) = Some input" by (rule fetched_simps(4)[OF ne])
  from ex show ?thesis
  proof
    assume a: "execSync ev (url fdat) input = Failed msg out \<and> txt = msg"
    let ?w = "case out of None \<Rightarrow> ?f | Some b \<Rightarrow> ?f\<lparr>tmp := AList.update ?o b (tmp ?f)\<rparr>"
    have r: "runTask ev cfg t cpk spk st =
        handle_failure ev cfg t (url fdat) (CommandFailed msg) spk ?w"
      using a by (simp add: runTask_fetch[OF d fd fs ne sd ss] ok run_command_failed)
    have w: "store ?w = store st" "retries ?w = retries st" "proto ?w = proto st"
      by (simp_all add: fetched_simps split: option.splits)
    have i: "map_of (tmp ?w) (url fdat) \<noteq> None"
      using fi by (simp add: update_conv' split: option.splits)
    have x: "execSync ev (url fdat) input \<noteq> Exited None" using a by simp
    have t: "error_text (CommandFailed msg) = txt" using a by (simp add: error_text_def)
    from r w i x t show ?thesis by blast
  next
    assume a: "execSync ev (url fdat) input = Exited None \<and>
             map_of (tmp st) ?o = None \<and> txt = ''Error: Output file was not created''"
    have o: "map_of (tmp ?f) ?o = None" using a by (simp add: fetched_simps(5)[OF on])
    have r: "runTask ev cfg t cpk spk st =
        handle_failure ev cfg t (url fdat) OutputNotCreated spk ?f"
      using a o by (simp add: runTask_fetch[OF d fd fs ne sd ss] ok run_command_no_output)
    have w: "store ?f = store st" "retries ?f = retries st" "proto ?f = proto st"
      by (simp_all add: fetched_simps)
    have i: "map_of (tmp ?f) (url fdat) \<noteq> None" using fi by simp
    have t: "error_text OutputNotCreated = txt" using a by (simp add: error_text_def)
    from r w i o t show ?thesis by blast
  qed
qed

lemma runTask_failed:
  assumes d: "task_date t = Date T"
    and fd: "task_file (task_in t) Dat = Some fdat" and fs: "task_file (task_in t) Sig = Some fsig"
    and nd: "url fdat = x @ ''.in.dat''" and ne: "url fdat \<noteq> url fsig"
    and sd: "map_of (store st) (url fdat) = Some input" and ss: "map_of (store st) (url fsig) = Some sg"
    and ok: "verify ev input sg cpk"
    and ex: "execSync ev (url fdat) input = Failed msg out \<and> txt = msg \<or>
             execSync ev (url fdat) input = Exited None \<and>
             map_of (tmp st) (replace_first ''.in.dat'' ''.out.dat'' (url fdat)) = None \<and>
             txt = ''Error: Output file was not created''"
    and ni: "\<not> inherits (proto st) (task_id t)"
    and c: "map_of (retries st) (task_id t) = (if k = 0 then None else Some (Count k))"
  shows "int k < commandRetries cfg \<Longrightarrow>
           fst (runTask ev cfg t cpk spk st) = None \<and>
           store (snd (runTask ev cfg t cpk spk st)) = store st \<and>
           proto (snd (runTask ev cfg t cpk spk st)) = proto st \<and>
           retries (snd (runTask ev cfg t cpk spk st)) =
             AList.update (task_id t) (Count (k + 1)) (retries st) \<and>
           map_of (tmp (snd (runTask ev cfg t cpk spk st))) (url fdat) \<noteq> None \<and>
           (execSync ev (url fdat) input = Exited None \<longrightarrow>
              map_of (tmp (snd (runTask ev cfg t cpk spk st)))
                (replace_first ''.in.dat'' ''.out.dat'' (url fdat)) = None)"
    and "int k \<ge> commandRetries cfg \<Longrightarrow>
           fst (runTask ev cfg t cpk spk st) = None \<and>
           store (snd (runTask ev cfg t cpk spk st)) =
             AList.update (getTaskFileUrl (task_date t) (task_id t) Out Sig) (sign ev txt spk)
               (AList.update (getTaskFileUrl (task_date t) (task_id t) Out Err) txt (store st)) \<and>
           retries (snd (runTask ev cfg t cpk spk st)) = AList.delete (task_id t) (retries st) \<and>
           map_of (tmp (snd (runTask ev cfg t cpk spk st))) (url fdat) = None"
proof -
  from runTask_command_fails[OF d fd fs nd ne sd ss ok ex, of cfg spk]
  obtain w e where r: "runTask ev cfg t cpk spk st = handle_failure ev cfg t (url fdat) e spk w"
    and t: "error_text e = txt"
    and w: "store w = store st" "retries w = retries st" "proto w = proto st"
    and i: "map_of (tmp w) (url fdat) \<noteq> None"
    and o: "execSync ev (url fdat) input = Exited None \<longrightarrow>
              map_of (tmp w) (replace_first ''.in.dat'' ''.out.dat'' (url fdat)) = None"
    by blast
  from i obtain b where b: "map_of (tmp w) (url fdat) = Some b" by blast
  have ni': "\<not> inherits (proto w) (task_id t)" using ni w by simp
  have c': "map_of (retries w) (task_id t) = (if k = 0 then None else Some (Count k))"
    using c w by simp
  {
    assume lt: "int k < commandRetries cfg"
    from handle_failure_retry[OF ni' c' lt, of ev "url fdat" e spk]
    show "fst (runTask ev cfg t cpk spk st) = None \<and>
           store (snd (runTask ev cfg t cpk spk st)) = store st \<and>
           proto (snd (runTask ev cfg t cpk spk st)) = proto st \<and>
           retries (snd (runTask ev cfg t cpk spk st)) =
             AList.update (task_id t) (Count (k + 1)) (retries st) \<and>
           map_of (tmp (snd (runTask ev cfg t cpk spk st))) (url fdat) \<noteq> None \<and>
           (execSync ev (url fdat) input = Exited None \<longrightarrow>
              map_of (tmp (snd (runTask ev cfg t cpk spk st)))
                (replace_first ''.in.dat'' ''.out.dat'' (url fdat)) = None)"
      using b o by (simp add: r w)
  }
  {
    assume ge: "int k \<ge> commandRetries cfg"
    from handle_failure_exhausted[OF ni' c' ge b, of ev e spk]
    show "fst (runTask ev cfg t cpk spk st) = None \<and>
           store (snd (runTask ev cfg t cpk spk st)) =
             AList.update (getTaskFileUrl (task_date t) (task_id t) Out Sig) (sign ev txt spk)
               (AList.update (getTaskFileUrl (task_date t) (task_id t) Out Err) txt (store st)) \<and>
           retries (snd (runTask ev cfg t cpk spk st)) = AList.delete (task_id t) (retries st) \<and>
           map_of (tmp (snd (runTask ev cfg t cpk spk st))) (url fdat) = None"
      by (simp add: r w t delete_conv')
  }
qed

lemma attempts_failing:
  assumes d: "task_date t = Date T"
    and fd: "task_file (task_in t) Dat = Some fdat" and fs: "task_file (task_in t) Sig = Some fsig"
    and nd: "url fdat = x @ ''.in.dat''" and ne: "url fdat \<noteq> url fsig"
    and sd: "map_of (store st) (url fdat) = Some input" and ss: "map_of (store st) (url fsig) = Some sg"
    and ok: "verify ev input sg cpk"
    and ex: "execSync ev (url fdat) input = Failed msg out \<and> txt = msg \<or>
             execSync ev (url fdat) input = Exited None \<and>
             map_of (tmp st) (replace_first ''.in.dat'' ''.out.dat'' (url fdat)) = None \<and>
             txt = ''Error: Output file was not created''"
    and ni: "\<not> inherits (proto st) (task_id t)"
    and N: "commandRetries cfg = int n"
    and r0: "map_of (retries st) (task_id t) = None"
  shows "k \<le> n \<Longrightarrow>
     store (attempts k ev cfg t cpk spk st) = store st \<and>
     proto (attempts k ev cfg t cpk spk st) = proto st \<and>
     map_of (retries (attempts k ev cfg t cpk spk st)) (task_id t) =
       (if k = 0 then None else Some (Count k)) \<and>
     (execSync ev (url fdat) input = Exited None \<longrightarrow>
        map_of (tmp (attempts k ev cfg t cpk spk st))
          (replace_first ''.in.dat'' ''.out.dat'' (url fdat)) = None) \<and>
     (1 \<le> k \<longrightarrow> fst (runTask ev cfg t cpk spk (attempts (k - 1) ev cfg t cpk spk st)) = None \<and>
        map_of (tmp (attempts k ev cfg t cpk spk st)) (url fdat) \<noteq> None)"
proof (induction k)
  case 0
  from ex have "execSync ev (url fdat) input = Exited None \<longrightarrow>
        map_of (tmp st) (replace_first ''.in.dat'' ''.out.dat'' (url fdat)) = None"
    by auto
  then show ?case by (simp add: r0)
next
  case (Suc k)
  let ?s = "attempts k ev cfg t cpk spk st"
  from Suc have ih: "store ?s = store st" "proto ?s = proto st"
    "map_of (retries ?s) (task_id t) = (if k = 0 then None else Some (Count k))"
    "execSync ev (url fdat) input = Exited None \<longrightarrow>
        map_of (tmp ?s) (replace_first ''.in.dat'' ''.out.dat'' (url fdat)) = None"
    by simp_all
  have lt: "int k < commandRetries cfg" using Suc.prems N by simp
  have sd': "map_of (store ?s) (url fdat) = Some input" and ss': "map_of (store ?s) (url fsig) = Some sg"
    using sd ss ih(1) by simp_all
  have ni': "\<not> inherits (proto ?s) (task_id t)" using ni ih(2) by simp
  have ex': "execSync ev (url fdat) input = Failed msg out \<and> txt = msg \<or>
             execSync ev (url fdat) input = Exited None \<and>
             map_of (tmp ?s) (replace_first ''.in.dat'' ''.out.dat'' (url fdat)) = None \<and>
             txt = ''Error: Output file was not created''"
    using ex ih(4) by blast
  from runTask_failed(1)[OF d fd fs nd ne sd' ss' ok ex' ni' ih(3) lt, of spk] ih(1,2)
  show ?case by (simp add: update_conv')
qed

text \<open>The example task is the one the server selects from the example listing.\<close>

lemma example_task_selected:
  "next_task fresh_prototype example_listing = Some (Some example_task, fresh_prototype)"
  by code_simp

text \<open>
  Claim C1, as amended. Take a task with a valid date whose id is not the name of a
  property that a plain object inherits (\<^verbatim>\<open>constructor\<close>, \<^verbatim>\<open>toString\<close>, \<^verbatim>\<open>__proto__\<close> and the
  like, or \<^verbatim>\<open>in\<close> and \<^verbatim>\<open>out\<close> once \<^verbatim>\<open>Object.prototype\<close> has them), whose two input objects
  are in the store under names ending in \<^verbatim>\<open>.in.dat\<close> and \<^verbatim>\<open>.in.sig\<close>, whose signature
  verifies and whose command fails on every attempt: it exits with an error, or it exits
  normally and no output file exists. Let \<^verbatim>\<open>commandRetries\<close> be \<open>n\<close>, with no retry
  counter recorded for the task. Each of the first \<open>n\<close> attempts throws nothing, leaves
  the store as it was (nothing is published, the input objects stay, so the task stays
  pending), keeps the downloaded local copy of the input, and sets the counter to the
  number of attempts. Attempt \<open>n + 1\<close> adds exactly \<^verbatim>\<open>out.err\<close> with the error text (the
  message of the command's error, or \<^verbatim>\<open>Error: Output file was not created\<close>) and
  \<^verbatim>\<open>out.sig\<close> with its signature to the store, removes the counter entry and removes the
  local copy of the input; the two input objects are still in the store.
\<close>

theorem retry_exhaustion:
  assumes d: "task_date t = Date T"
    and fd: "task_file (task_in t) Dat = Some fdat" and fs: "task_file (task_in t) Sig = Some fsig"
    and nd: "url fdat = x @ ''.in.dat''" and ns: "url fsig = y @ ''.in.sig''"
    and sd: "map_of (store st) (url fdat) = Some input" and ss: "map_of (store st) (url fsig) = Some sg"
    and ok: "verify ev input sg cpk"
    and ex: "execSync ev (url fdat) input = Failed msg out \<and> txt = msg \<or>
             execSync ev (url fdat) input = Exited None \<and>
             map_of (tmp st) (replace_first ''.in.dat'' ''.out.dat'' (url fdat)) = None \<and>
             txt = ''Error: Output file was not created''"
    and ni: "\<not> inherits (proto st) (task_id t)"
    and N: "commandRetries cfg = int n"
    and r0: "map_of (retries st) (task_id t) = None"
  shows "(\<forall>k. 1 \<le> k \<and> k \<le> n \<longrightarrow>
            fst (runTask ev cfg t cpk spk (attempts (k - 1) ev cfg t cpk spk st)) = None \<and>
            store (attempts k ev cfg t cpk spk st) = store st \<and>
            map_of (retries (attempts k ev cfg t cpk spk st)) (task_id t) = Some (Count k) \<and>
            map_of (tmp (attempts k ev cfg t cpk spk st)) (url fdat) \<noteq> None) \<and>
         fst (runTask ev cfg t cpk spk (attempts n ev cfg t cpk spk st)) = None \<and>
         store (attempts (Suc n) ev cfg t cpk spk st) =
           AList.update (getTaskFileUrl (task_date t) (task_id t) Out Sig) (sign ev txt spk)
             (AList.update (getTaskFileUrl (task_date t) (task_id t) Out Err) txt (store st)) \<and>
         map_of (retries (attempts (Suc n) ev cfg t cpk spk st)) (task_id t) = None \<and>
         map_of (tmp (attempts (Suc n) ev cfg t cpk spk st)) (url fdat) = None \<and>
         map_of (store (attempts (Suc n) ev cfg t cpk spk st)) (url fdat) = Some input \<and>
         map_of (store (attempts (Suc n) ev cfg t cpk spk st)) (url fsig) = Some sg"
proof -
  have ne: "url fdat \<noteq> url fsig" using nd ns in_dat_neq_in_sig by simp
  note a = attempts_failing[OF d fd fs nd ne sd ss ok ex ni N r0, of _ spk]
  have 1: "fst (runTask ev cfg t cpk spk (attempts (k - 1) ev cfg t cpk spk st)) = None \<and>
            store (attempts k ev cfg t cpk spk st) = store st \<and>
            map_of (retries (attempts k ev cfg t cpk spk st)) (task_id t) = Some (Count k) \<and>
            map_of (tmp (attempts k ev cfg t cpk spk st)) (url fdat) \<noteq> None"
    if "1 \<le> k" "k \<le> n" for k
    using a[OF that(2)] that(1) by simp
  let ?s = "attempts n ev cfg t cpk spk st"
  from a[of n] have s: "store ?s = store st" "proto ?s = proto st"
    "map_of (retries ?s) (task_id t) = (if n = 0 then None else Some (Count n))"
    "execSync ev (url fdat) input = Exited None \<longrightarrow>
        map_of (tmp ?s) (replace_first ''.in.dat'' ''.out.dat'' (url fdat)) = None"
    by simp_all
  have ge: "int n \<ge> commandRetries cfg" using N by simp
  have sd': "map_of (store ?s) (url fdat) = Some input" and ss': "map_of (store ?s) (url fsig) = Some sg"
    using sd ss s(1) by simp_all
  have ni': "\<not> inherits (proto ?s) (task_id t)" using ni s(2) by simp
  have ex': "execSync ev (url fdat) input = Failed msg out \<and> txt = msg \<or>
             execSync ev (url fdat) input = Exited None \<and>
             map_of (tmp ?s) (replace_first ''.in.dat'' ''.out.dat'' (url fdat)) = None \<and>
             txt = ''Error: Output file was not created''"
    using ex s(4) by blast
  note e = runTask_failed(2)[OF d fd fs nd ne sd' ss' ok ex' ni' s(3) ge, of spk]
  have o: "getTaskFileUrl (task_date t) (task_id t) Out Sig \<noteq> url fdat"
      "getTaskFileUrl (task_date t) (task_id t) Out Err \<noteq> url fdat"
      "getTaskFileUrl (task_date t) (task_id t) Out Sig \<noteq> url fsig"
      "getTaskFileUrl (task_date t) (task_id t) Out Err \<noteq> url fsig"
    using getTaskFileUrl_out_neq_in nd ns by simp_all
  have 2: "fst (runTask ev cfg t cpk spk ?s) = None" using e by simp
  have 3: "store (attempts (Suc n) ev cfg t cpk spk st) =
           AList.update (getTaskFileUrl (task_date t) (task_id t) Out Sig) (sign ev txt spk)
             (AList.update (getTaskFileUrl (task_date t) (task_id t) Out Err) txt (store st))"
    using e s(1) by simp
  have 4: "map_of (retries (attempts (Suc n) ev cfg t cpk spk st)) (task_id t) = None"
    using e by (simp add: delete_conv')
  have 5: "map_of (tmp (attempts (Suc n) ev cfg t cpk spk st)) (url fdat) = None"
    using e by simp
  have 6: "map_of (store (attempts (Suc n) ev cfg t cpk spk st)) (url fdat) = Some input"
      "map_of (store (attempts (Suc n) ev cfg t cpk spk st)) (url fsig) = Some sg"
    unfolding 3 using o sd ss by (simp_all add: update_conv')
  from 1 2 3 4 5 6 show ?thesis by blast
qed

theorem retry_exhaustion_witness:
  "verify example_env ''alice'' ''client:alice'' ''pub-client'' \<and>
   \<not> inherits (proto example_state) (task_id example_task) \<and>
   execSync example_env ''7-b.in.dat'' ''alice'' =
     Failed ''Error: Command failed: run_task.sh'' None \<and>
   store (attempts 1 example_env example_config example_task ''pub-client'' ''priv-server''
            example_state) = store example_state \<and>
   store (attempts 2 example_env example_config example_task ''pub-client'' ''priv-server''
            example_state) = store example_state \<and>
   store (attempts 3 example_env example_config example_task ''pub-client'' ''priv-server''
            example_state) =
     [(''7-b.in.dat'', ''alice''), (''7-b.in.sig'', ''client:alice''),
      (''7-b.out.err'', ''Error: Command failed: run_task.sh''),
      (''7-b.out.sig'', ''server:Error: Command failed: run_task.sh'')] \<and>
   map_of (retries (attempts 3 example_env example_config example_task ''pub-client''
            ''priv-server'' example_state)) ''b'' = None"
proof -
  have h: "task_date example_task = Date 7"
    "task_file (task_in example_task) Dat =
       Some \<lparr>date = Date 7, taskId = ''b'', inout = In, ext = Dat, url = ''7-b.in.dat''\<rparr>"
    "task_file (task_in example_task) Sig =
       Some \<lparr>date = Date 7, taskId = ''b'', inout = In, ext = Sig, url = ''7-b.in.sig''\<rparr>"
    "url \<lparr>date = Date 7, taskId = ''b'', inout = In, ext = Dat, url = ''7-b.in.dat''\<rparr> = ''7-b'' @ ''.in.dat''"
    "url \<lparr>date = Date 7, taskId = ''b'', inout = In, ext = Sig, url = ''7-b.in.sig''\<rparr> = ''7-b'' @ ''.in.sig''"
    "map_of (store example_state)
       (url \<lparr>date = Date 7, taskId = ''b'', inout = In, ext = Dat, url = ''7-b.in.dat''\<rparr>) = Some ''alice''"
    "map_of (store example_state)
       (url \<lparr>date = Date 7, taskId = ''b'', inout = In, ext = Sig, url = ''7-b.in.sig''\<rparr>) = Some ''client:alice''"
    "verify example_env ''alice'' ''client:alice'' ''pub-client''"
    by (simp_all add: example_task_def example_state_def example_env_def task_file_def)
  have x: "execSync example_env
       (url \<lparr>date = Date 7, taskId = ''b'', inout = In, ext = Dat, url = ''7-b.in.dat''\<rparr>) ''alice'' =
     Failed ''Error: Command failed: run_task.sh'' None \<and>
     ''Error: Command failed: run_task.sh'' = ''Error: Command failed: run_task.sh'' \<or>
     execSync example_env
       (url \<lparr>date = Date 7, taskId = ''b'', inout = In, ext = Dat, url = ''7-b.in.dat''\<rparr>) ''alice'' =
     Exited None \<and>
     map_of (tmp example_state) (replace_first ''.in.dat'' ''.out.dat''
       (url \<lparr>date = Date 7, taskId = ''b'', inout = In, ext = Dat, url = ''7-b.in.dat''\<rparr>)) = None \<and>
     ''Error: Command failed: run_task.sh'' = ''Error: Output file was not created''"
    by (simp add: example_env_def)
  have x': "execSync example_env ''7-b.in.dat'' ''alice'' =
     Failed ''Error: Command failed: run_task.sh'' None"
    by (simp add: example_env_def)
  have g: "\<not> inherits (proto example_state) (task_id example_task)"
    "commandRetries example_config = int 2"
    "map_of (retries example_state) (task_id example_task) = None"
    by (simp_all add: example_task_def example_state_def example_config_def inherits_def
        fresh_prototype_def object_prototype_names_def)
  have u: "getTaskFileUrl (Date 7) ''b'' Out Sig = ''7-b.out.sig''"
    "getTaskFileUrl (Date 7) ''b'' Out Err = ''7-b.out.err''"
    by code_simp+
  have three: "Suc 2 = 3" by simp
  note r = retry_exhaustion [OF h x g, of "''priv-server''"]
  from r have a: "\<And>k. 1 \<le> k \<Longrightarrow> k \<le> 2 \<Longrightarrow>
      store (attempts k example_env example_config example_task ''pub-client'' ''priv-server''
        example_state) = store example_state"
    by blast
  from r have b: "store (attempts (Suc 2) example_env example_config example_task ''pub-client''
        ''priv-server'' example_state) =
      AList.update (getTaskFileUrl (task_date example_task) (task_id example_task) Out Sig)
        (sign example_env ''Error: Command failed: run_task.sh'' ''priv-server'')
        (AList.update (getTaskFileUrl (task_date example_task) (task_id example_task) Out Err)
           ''Error: Command failed: run_task.sh'' (store example_state))"
    by blast
  from r have c: "map_of (retries (attempts (Suc 2) example_env example_config example_task
        ''pub-client'' ''priv-server'' example_state)) (task_id example_task) = None"
    by blast
  have i: "task_date example_task = Date 7" "task_id example_task = ''b''"
    by (simp_all add: example_task_def)
  have s: "sign example_env ''Error: Command failed: run_task.sh'' ''priv-server'' =
      ''server:Error: Command failed: run_task.sh''"
    by (simp add: example_env_def)
  have b': "store (attempts 3 example_env example_config example_task ''pub-client''
        ''priv-server'' example_state) =
     [(''7-b.in.dat'', ''alice''), (''7-b.in.sig'', ''client:alice''),
      (''7-b.out.err'', ''Error: Command failed: run_task.sh''),
      (''7-b.out.sig'', ''server:Error: Command failed: run_task.sh'')]"
    using b unfolding three i u s by (simp add: example_state_def)
  from a[of 1] a[of 2] b' c[unfolded three i] h(8) g(1) x' show ?thesis by simp
qed

text \<open>The same with a command that exits normally and writes no output file.\<close>

lemma example_no_output:
  "store (attempts 2 example_silent_env example_config example_task ''pub-client''
            ''priv-server'' example_state) = store example_state \<and>
   store (attempts 3 example_silent_env example_config example_task ''pub-client''
            ''priv-server'' example_state) =
     [(''7-b.in.dat'', ''alice''), (''7-b.in.sig'', ''client:alice''),
      (''7-b.out.err'', ''Error: Output file was not created''),
      (''7-b.out.sig'', ''server:Error: Output file was not created'')]"
  by code_simp

text \<open>
  Claim C1 as stated fails in two ways, both with \<^verbatim>\<open>commandRetries = 2\<close> and a command
  that fails on every attempt.
  \<^item> The input that is deleted is the local copy, not the store object: after the third
    attempt on the example task has published \<^verbatim>\<open>out.err\<close>, both input objects are still
    in the store.
  \<^item> The store of \<open>example_inherited_state\<close> makes the server select a task with the id
    \<^verbatim>\<open>constructor\<close>, whose data is \<^verbatim>\<open>5-z.in.dat\<close> and whose signature verifies. The read
    \<^verbatim>\<open>runTask.retries['constructor']\<close> finds an inherited function and later a string,
    neither of which is ever \<open>\<ge> 2\<close>: after three, four and five iterations of the
    server loop nothing is published.
\<close>

theorem retry_exhaustion_counterexample:
  "map_of (store (attempts 3 example_env example_config example_task ''pub-client''
      ''priv-server'' example_state)) ''7-b.out.err'' = Some ''Error: Command failed: run_task.sh'' \<and>
   map_of (store (attempts 3 example_env example_config example_task ''pub-client''
      ''priv-server'' example_state)) ''7-b.in.dat'' = Some ''alice'' \<and>
   map_of (store (attempts 3 example_env example_config example_task ''pub-client''
      ''priv-server'' example_state)) ''7-b.in.sig'' = Some ''client:alice'' \<and>
   map_option (map_option task_id \<circ> fst)
     (next_task fresh_prototype (convertUrls (map fst (store example_inherited_state)))) =
     Some (Some ''constructor'') \<and>
   verify example_env ''alice'' ''client:alice'' ''pub-client'' \<and>
   map_option store
     (server_loop {} example_env example_config ''pub-client'' ''priv-server'' [100, 200, 300]
        example_inherited_state) = Some (store example_inherited_state) \<and>
   map_option store
     (server_loop {} example_env example_config ''pub-client'' ''priv-server''
        [100, 200, 300, 400] example_inherited_state) = Some (store example_inherited_state) \<and>
   map_option store
     (server_loop {} example_env example_config ''pub-client'' ''priv-server''
        [100, 200, 300, 400, 500] example_inherited_state) =
     Some (store example_inherited_state) \<and>
   map_option retries
     (server_loop {} example_env example_config ''pub-client'' ''priv-server''
        [100, 200, 300, 400, 500] example_inherited_state) =
     Some [(''constructor'', NotANumber)]"
  by code_simp

text \<open>For a task id that a plain object inherits, no number of failing attempts
  publishes anything.\<close>

lemma attempts_inherited:
  assumes d: "task_date t = Date T"
    and fd: "task_file (task_in t) Dat = Some fdat" and fs: "task_file (task_in t) Sig = Some fsig"
    and nd: "url fdat = x @ ''.in.dat''" and ns: "url fsig = y @ ''.in.sig''"
    and sd: "map_of (store st) (url fdat) = Some input" and ss: "map_of (store st) (url fsig) = Some sg"
    and ok: "verify ev input sg cpk"
    and ex: "execSync ev (url fdat) input = Failed msg out"
    and i: "inherits (proto st) (task_id t)"
    and r0: "map_of (retries st) (task_id t) = None"
  shows "store (attempts k ev cfg t cpk spk st) = store st \<and>
         proto (attempts k ev cfg t cpk spk st) = proto st \<and>
         map_of (retries (attempts k ev cfg t cpk spk st)) (task_id t) \<in> {None, Some NotANumber}"
proof (induction k)
  case 0
  then show ?case by (simp add: r0)
next
  case (Suc k)
  let ?s = "attempts k ev cfg t cpk spk st"
  have ne: "url fdat \<noteq> url fsig" using nd ns in_dat_neq_in_sig by simp
  from Suc have ih: "store ?s = store st" "proto ?s = proto st"
    "map_of (retries ?s) (task_id t) \<in> {None, Some NotANumber}" by simp_all
  have sd': "map_of (store ?s) (url fdat) = Some input" and ss': "map_of (store ?s) (url fsig) = Some sg"
    using sd ss ih(1) by simp_all
  have ex': "execSync ev (url fdat) input = Failed msg out \<and> msg = msg \<or>
             execSync ev (url fdat) input = Exited None \<and>
             map_of (tmp ?s) (replace_first ''.in.dat'' ''.out.dat'' (url fdat)) = None \<and>
             msg = ''Error: Output file was not created''"
    using ex by simp
  from runTask_command_fails[OF d fd fs nd ne sd' ss' ok ex', of cfg spk]
  obtain w e where r: "runTask ev cfg t cpk spk ?s = handle_failure ev cfg t (url fdat) e spk w"
    and w: "store w = store ?s" "retries w = retries ?s" "proto w = proto ?s"
    by blast
  have i': "inherits (proto w) (task_id t)" using i w ih by simp
  have c: "map_of (retries w) (task_id t) \<in> {None, Some NotANumber}" using ih w by simp
  from handle_failure_inherited[OF i' c, of ev cfg "url fdat" e spk] r w ih
  show ?case by simp
qed

text \<open>
  Claim C8, as amended. For a task with a valid date whose two input objects are in the
  store and whose signature does not verify against the client's public key, \<^verbatim>\<open>runTask\<close>
  throws nothing, adds exactly \<^verbatim>\<open>out.err\<close> with the text \<^verbatim>\<open>Bad signature\<close> and \<^verbatim>\<open>out.sig\<close>
  with its signature to the store, leaves the retry counters alone, removes the local
  copy of the input data and does not depend on the external command. The two input
  objects are still in the store.
\<close>

theorem bad_signature_short_circuit:
  assumes d: "task_date t = Date T"
    and fd: "task_file (task_in t) Dat = Some fdat" and fs: "task_file (task_in t) Sig = Some fsig"
    and nd: "url fdat = x @ ''.in.dat''" and ns: "url fsig = y @ ''.in.sig''"
    and sd: "map_of (store st) (url fdat) = Some input" and ss: "map_of (store st) (url fsig) = Some sg"
    and bad: "\<not> verify ev input sg cpk"
  shows "fst (runTask ev cfg t cpk spk st) = None \<and>
         store (snd (runTask ev cfg t cpk spk st)) =
           AList.update (getTaskFileUrl (task_date t) (task_id t) Out Sig)
             (sign ev ''Bad signature'' spk)
             (AList.update (getTaskFileUrl (task_date t) (task_id t) Out Err) ''Bad signature''
                (store st)) \<and>
         retries (snd (runTask ev cfg t cpk spk st)) = retries st \<and>
         map_of (tmp (snd (runTask ev cfg t cpk spk st))) (url fdat) = None \<and>
         map_of (store (snd (runTask ev cfg t cpk spk st))) (url fdat) = Some input \<and>
         map_of (store (snd (runTask ev cfg t cpk spk st))) (url fsig) = Some sg \<and>
         runTask (ev\<lparr>execSync := c\<rparr>) cfg t cpk spk st = runTask ev cfg t cpk spk st"
proof -
  have ne: "url fdat \<noteq> url fsig" using nd ns in_dat_neq_in_sig by simp
  note r = runTask_bad_signature[OF d fd fs ne sd ss bad, of cfg spk]
  have bad': "\<not> verify (ev\<lparr>execSync := c\<rparr>) input sg cpk" using bad by simp
  note r' = runTask_bad_signature[OF d fd fs ne sd ss bad', of cfg spk]
  have o: "getTaskFileUrl (task_date t) (task_id t) Out Sig \<noteq> url fdat"
      "getTaskFileUrl (task_date t) (task_id t) Out Err \<noteq> url fdat"
      "getTaskFileUrl (task_date t) (task_id t) Out Sig \<noteq> url fsig"
      "getTaskFileUrl (task_date t) (task_id t) Out Err \<noteq> url fsig"
    using getTaskFileUrl_out_neq_in nd ns by simp_all
  have 1: "map_of (store (snd (runTask ev cfg t cpk spk st))) (url fdat) = Some input"
       "map_of (store (snd (runTask ev cfg t cpk spk st))) (url fsig) = Some sg"
    unfolding r using o sd ss by (simp_all add: update_conv')
  have 2: "map_of (tmp (snd (runTask ev cfg t cpk spk st))) (url fdat) = None"
    unfolding r by (simp add: delete_conv')
  have 3: "runTask (ev\<lparr>execSync := c\<rparr>) cfg t cpk spk st = runTask ev cfg t cpk spk st"
    unfolding r r' by simp
  from 1 2 3 show ?thesis by (simp add: r)
qed

theorem bad_signature_short_circuit_witness:
  "\<not> verify example_env ''alice'' ''mallory:alice'' ''pub-client'' \<and>
   fst (runTask example_env example_config example_task ''pub-client'' ''priv-server''
          example_forged) = None \<and>
   store (snd (runTask example_env example_config example_task ''pub-client'' ''priv-server''
          example_forged)) =
     [(''7-b.in.dat'', ''alice''), (''7-b.in.sig'', ''mallory:alice''),
      (''7-b.out.err'', ''Bad signature''), (''7-b.out.sig'', ''server:Bad signature'')] \<and>
   retries (snd (runTask example_env example_config example_task ''pub-client'' ''priv-server''
          example_forged)) = []"
proof -
  have h: "task_date example_task = Date 7"
    "task_file (task_in example_task) Dat =
       Some \<lparr>date = Date 7, taskId = ''b'', inout = In, ext = Dat, url = ''7-b.in.dat''\<rparr>"
    "task_file (task_in example_task) Sig =
       Some \<lparr>date = Date 7, taskId = ''b'', inout = In, ext = Sig, url = ''7-b.in.sig''\<rparr>"
    "url \<lparr>date = Date 7, taskId = ''b'', inout = In, ext = Dat, url = ''7-b.in.dat''\<rparr> = ''7-b'' @ ''.in.dat''"
    "url \<lparr>date = Date 7, taskId = ''b'', inout = In, ext = Sig, url = ''7-b.in.sig''\<rparr> = ''7-b'' @ ''.in.sig''"
    "map_of (store example_forged)
       (url \<lparr>date = Date 7, taskId = ''b'', inout = In, ext = Dat, url = ''7-b.in.dat''\<rparr>) = Some ''alice''"
    "map_of (store example_forged)
       (url \<lparr>date = Date 7, taskId = ''b'', inout = In, ext = Sig, url = ''7-b.in.sig''\<rparr>) = Some ''mallory:alice''"
    "\<not> verify example_env ''alice'' ''mallory:alice'' ''pub-client''"
    by (simp_all add: example_task_def example_forged_def example_env_def task_file_def)
  have u: "getTaskFileUrl (Date 7) ''b'' Out Sig = ''7-b.out.sig''"
    "getTaskFileUrl (Date 7) ''b'' Out Err = ''7-b.out.err''"
    by code_simp+
  have i: "task_date example_task = Date 7" "task_id example_task = ''b''"
    by (simp_all add: example_task_def)
  have s: "sign example_env ''Bad signature'' ''priv-server'' = ''server:Bad signature''"
    by (simp add: example_env_def)
  note r = bad_signature_short_circuit [OF h, of example_config "''priv-server''"]
  from r have a: "fst (runTask example_env example_config example_task ''pub-client''
      ''priv-server'' example_forged) = None" by blast
  from r have b: "store (snd (runTask example_env example_config example_task ''pub-client''
      ''priv-server'' example_forged)) =
      AList.update (getTaskFileUrl (task_date example_task) (task_id example_task) Out Sig)
        (sign example_env ''Bad signature'' ''priv-server'')
        (AList.update (getTaskFileUrl (task_date example_task) (task_id example_task) Out Err)
           ''Bad signature'' (store example_forged))" by blast
  from r have c: "retries (snd (runTask example_env example_config example_task ''pub-client''
      ''priv-server'' example_forged)) = retries example_forged" by blast
  have b': "store (snd (runTask example_env example_config example_task ''pub-client''
      ''priv-server'' example_forged)) =
     [(''7-b.in.dat'', ''alice''), (''7-b.in.sig'', ''mallory:alice''),
      (''7-b.out.err'', ''Bad signature''), (''7-b.out.sig'', ''server:Bad signature'')]"
    using b unfolding i u s by (simp add: example_forged_def)
  from a b' c h(8) show ?thesis by (simp add: example_forged_def)
qed


text \<open>
  Claim C8 as stated fails in that the input data object is not deleted: after the
  signed \<^verbatim>\<open>Bad signature\<close> error is published, \<^verbatim>\<open>in.dat\<close> is still in the store.
\<close>

theorem bad_signature_keeps_input_counterexample:
  "\<not> verify example_env ''alice'' ''mallory:alice'' ''pub-client'' \<and>
   map_of (store (snd (runTask example_env example_config example_task ''pub-client''
      ''priv-server'' example_forged))) ''7-b.out.err'' = Some ''Bad signature'' \<and>
   map_of (store (snd (runTask example_env example_config example_task ''pub-client''
      ''priv-server'' example_forged))) ''7-b.in.dat'' = Some ''alice''"
  by code_simp

text \<open>The loop of the server runs the task that \<open>next_task\<close> selects.\<close>

lemma server_iteration_runs_next:
  assumes "deleteExpiredFiles rejected now (taskExpirationMillis cfg) (store st)
             (convertUrls (map fst (store st))) = (files, s')"
  shows "server_iteration rejected ev cfg cpk spk now st =
     (case next_task (proto st) files of
        None \<Rightarrow> None
      | Some (None, P') \<Rightarrow> Some (st\<lparr>store := s', proto := P'\<rparr>)
      | Some (Some t, P') \<Rightarrow>
          Some (snd (runTask ev cfg t cpk spk (st\<lparr>store := s', proto := P'\<rparr>))))"
  using assms by (simp add: server_iteration_def)

text \<open>
  Three iterations of the server loop on the example store, with the command that
  always fails and \<^verbatim>\<open>commandRetries = 2\<close>, leave the signed error next to the input
  objects; a fourth iteration finds no pending task and changes nothing.
\<close>

lemma example_iteration:
  "map_option store
     (server_loop {} example_env example_config ''pub-client'' ''priv-server'' [800, 900, 1000]
        example_state) =
   Some [(''7-b.in.dat'', ''alice''), (''7-b.in.sig'', ''client:alice''),
      (''7-b.out.err'', ''Error: Command failed: run_task.sh''),
      (''7-b.out.sig'', ''server:Error: Command failed: run_task.sh'')]"
  by code_simp

lemma example_iteration_idle:
  "map_option store
     (server_loop {} example_env example_config ''pub-client'' ''priv-server''
        [800, 900, 1000, 1100] example_state) =
   Some [(''7-b.in.dat'', ''alice''), (''7-b.in.sig'', ''client:alice''),
      (''7-b.out.err'', ''Error: Command failed: run_task.sh''),
      (''7-b.out.sig'', ''server:Error: Command failed: run_task.sh'')]"
  by code_simp

section \<open>Properties of the client session\<close>







text \<open>The example task is the one the client finds in the example store.\<close>

lemma example_done_found:
  "find_result fresh_prototype ''b'' (convertUrls (map fst (store example_done))) =
     Some (Some example_done_task, fresh_prototype)"
  by code_simp










end
